theory Spec2Isabelle
  imports Complex_Main
begin

section \<open>Numbers of the host language\<close>

text \<open>
  Every register, memory cell, stack value, scale and mixing factor of the simulator is
  a number of the host language: an IEEE 754 double, the two infinities, or NaN. A
  finite double is held as the real it denotes; the two zeros are not told apart (the
  simulator never divides by a computed zero nor looks at the sign of a zero).
\<close>

datatype number = Num real | Infinity | NegInfinity | NaN

definition pow2 :: "int \<Rightarrow> real" where
  "pow2 e = 2 powr real_of_int e"

text \<open>
  The finite doubles: an integer significand below \<open>2^53\<close> in magnitude times a power
  of two with an exponent between \<open>-1074\<close> and \<open>971\<close>.
\<close>

definition is_double :: "real \<Rightarrow> bool" where
  "is_double x \<longleftrightarrow> (\<exists>m e. x = real_of_int m * pow2 e \<and> \<bar>m\<bar> < 2 ^ 53 \<and> - 1074 \<le> e \<and> e \<le> 971)"

text \<open>Rounding to the nearest integer, a tie to the even one.\<close>

definition rne :: "real \<Rightarrow> int" where
  "rne t = (let f = \<lfloor>t\<rfloor>; d = t - real_of_int f in
            if d < 1 / 2 then f
            else if 1 / 2 < d then f + 1
            else if even f then f else f + 1)"

text \<open>
  The exponent of the unit in the last place of the double nearest to \<open>x\<close>: 52 below
  the binary exponent of \<open>x\<close>, and never below that of the subnormal numbers.
\<close>

definition ulp_exponent :: "real \<Rightarrow> int" where
  "ulp_exponent x = max (\<lfloor>log 2 \<bar>x\<bar>\<rfloor> - 52) (- 1074)"

text \<open>
  The rounding every arithmetic operation of the host applies to its exact result:
  to the nearest double, a tie to the even significand, and to an infinity where the
  rounded magnitude reaches \<open>2^1024\<close>.
\<close>

definition fl :: "real \<Rightarrow> number" where
  "fl x =
     (if x = 0 then Num 0
      else
        let u = pow2 (ulp_exponent x);
            y = real_of_int (rne (x / u)) * u
        in if 2 ^ 1024 \<le> \<bar>y\<bar> then (if 0 < x then Infinity else NegInfinity) else Num y)"

text \<open>The arithmetic operators.\<close>

definition js_neg :: "number \<Rightarrow> number" where
  "js_neg a = (case a of Num x \<Rightarrow> Num (- x) | Infinity \<Rightarrow> NegInfinity
               | NegInfinity \<Rightarrow> Infinity | NaN \<Rightarrow> NaN)"

fun js_add :: "number \<Rightarrow> number \<Rightarrow> number" where
  "js_add (Num x) (Num y) = fl (x + y)"
| "js_add NaN b = NaN"
| "js_add a NaN = NaN"
| "js_add Infinity NegInfinity = NaN"
| "js_add NegInfinity Infinity = NaN"
| "js_add Infinity b = Infinity"
| "js_add NegInfinity b = NegInfinity"
| "js_add a Infinity = Infinity"
| "js_add a NegInfinity = NegInfinity"

definition js_sub :: "number \<Rightarrow> number \<Rightarrow> number" where
  "js_sub a b = js_add a (js_neg b)"

text \<open>The sign of a number that is not NaN, as \<open>-1\<close>, \<open>0\<close> or \<open>1\<close>.\<close>

definition sign_of :: "number \<Rightarrow> real" where
  "sign_of a = (case a of Num x \<Rightarrow> sgn x | Infinity \<Rightarrow> 1 | NegInfinity \<Rightarrow> - 1 | NaN \<Rightarrow> 0)"

definition signed_infinity :: "real \<Rightarrow> number" where
  "signed_infinity s = (if 0 < s then Infinity else if s < 0 then NegInfinity else NaN)"

fun js_mul :: "number \<Rightarrow> number \<Rightarrow> number" where
  "js_mul (Num x) (Num y) = fl (x * y)"
| "js_mul NaN b = NaN"
| "js_mul a NaN = NaN"
| "js_mul a b = signed_infinity (sign_of a * sign_of b)"

text \<open>
  Division: a finite number over zero is an infinity of the sign of the dividend (NaN
  for zero over zero), a finite number over an infinity is zero.
\<close>

fun js_div :: "number \<Rightarrow> number \<Rightarrow> number" where
  "js_div (Num x) (Num y) = (if y = 0 then signed_infinity x else fl (x / y))"
| "js_div NaN b = NaN"
| "js_div a NaN = NaN"
| "js_div (Num x) b = Num 0"
| "js_div a (Num y) = signed_infinity (sign_of a * (if y < 0 then - 1 else 1))"
| "js_div a b = NaN"

definition trunc_real :: "real \<Rightarrow> int" where
  "trunc_real x = (if 0 \<le> x then \<lfloor>x\<rfloor> else \<lceil>x\<rceil>)"

text \<open>
  The remainder operator \<open>%\<close>: the exact remainder of the truncated division, with the
  sign of the dividend.
\<close>

fun js_rem :: "number \<Rightarrow> number \<Rightarrow> number" where
  "js_rem (Num x) (Num y) =
     (if y = 0 then NaN else Num (x - y * real_of_int (trunc_real (x / y))))"
| "js_rem (Num x) Infinity = Num x"
| "js_rem (Num x) NegInfinity = Num x"
| "js_rem a b = NaN"

text \<open>Comparisons: every comparison with NaN is false.\<close>

fun js_lt :: "number \<Rightarrow> number \<Rightarrow> bool" where
  "js_lt NaN b = False"
| "js_lt a NaN = False"
| "js_lt (Num x) (Num y) = (x < y)"
| "js_lt Infinity b = False"
| "js_lt a NegInfinity = False"
| "js_lt a Infinity = True"
| "js_lt NegInfinity b = True"

definition js_gt :: "number \<Rightarrow> number \<Rightarrow> bool" where
  "js_gt a b = js_lt b a"

definition js_le :: "number \<Rightarrow> number \<Rightarrow> bool" where
  "js_le a b = (a \<noteq> NaN \<and> b \<noteq> NaN \<and> (a = b \<or> js_lt a b))"

text \<open>The functions of \<open>Math\<close> that are exact.\<close>

definition Math_max :: "number \<Rightarrow> number \<Rightarrow> number" where
  "Math_max a b = (if a = NaN \<or> b = NaN then NaN else if js_lt a b then b else a)"

definition Math_min :: "number \<Rightarrow> number \<Rightarrow> number" where
  "Math_min a b = (if a = NaN \<or> b = NaN then NaN else if js_lt b a then b else a)"

definition Math_abs :: "number \<Rightarrow> number" where
  "Math_abs a = (case a of Num x \<Rightarrow> Num \<bar>x\<bar> | NaN \<Rightarrow> NaN | _ \<Rightarrow> Infinity)"

definition Math_floor :: "number \<Rightarrow> number" where
  "Math_floor a = (case a of Num x \<Rightarrow> Num (real_of_int \<lfloor>x\<rfloor>) | _ \<Rightarrow> a)"

text \<open>\<open>Math.round\<close> rounds to the nearest integer, a half upwards.\<close>

definition Math_round :: "number \<Rightarrow> number" where
  "Math_round a = (case a of Num x \<Rightarrow> Num (real_of_int \<lfloor>x + 1 / 2\<rfloor>) | _ \<Rightarrow> a)"

definition Math_trunc :: "number \<Rightarrow> number" where
  "Math_trunc a = (case a of Num x \<Rightarrow> Num (real_of_int (trunc_real x)) | _ \<Rightarrow> a)"

text \<open>
  The transcendental functions of \<open>Math\<close> are taken as correctly rounded: the double
  nearest to the exact value. (The host only promises an approximation; where the exact
  value is a double, as for \<open>cos 0\<close> and \<open>ln 1\<close>, it is returned.)
\<close>

definition Math_sin :: "number \<Rightarrow> number" where
  "Math_sin a = (case a of Num x \<Rightarrow> fl (sin x) | _ \<Rightarrow> NaN)"

definition Math_cos :: "number \<Rightarrow> number" where
  "Math_cos a = (case a of Num x \<Rightarrow> fl (cos x) | _ \<Rightarrow> NaN)"

definition Math_tan :: "number \<Rightarrow> number" where
  "Math_tan a = (case a of Num x \<Rightarrow> fl (tan x) | _ \<Rightarrow> NaN)"

definition Math_tanh :: "number \<Rightarrow> number" where
  "Math_tanh a = (case a of Num x \<Rightarrow> fl (tanh x) | Infinity \<Rightarrow> Num 1
                  | NegInfinity \<Rightarrow> Num (- 1) | NaN \<Rightarrow> NaN)"

definition Math_sinh :: "number \<Rightarrow> number" where
  "Math_sinh a = (case a of Num x \<Rightarrow> fl (sinh x) | _ \<Rightarrow> a)"

definition Math_cosh :: "number \<Rightarrow> number" where
  "Math_cosh a = (case a of Num x \<Rightarrow> fl (cosh x) | NaN \<Rightarrow> NaN | _ \<Rightarrow> Infinity)"

definition Math_exp :: "number \<Rightarrow> number" where
  "Math_exp a = (case a of Num x \<Rightarrow> fl (exp x) | Infinity \<Rightarrow> Infinity
                 | NegInfinity \<Rightarrow> Num 0 | NaN \<Rightarrow> NaN)"

definition Math_log :: "number \<Rightarrow> number" where
  "Math_log a = (case a of
                   Num x \<Rightarrow> if x < 0 then NaN else if x = 0 then NegInfinity else fl (ln x)
                 | Infinity \<Rightarrow> Infinity
                 | _ \<Rightarrow> NaN)"

definition Math_log10 :: "number \<Rightarrow> number" where
  "Math_log10 a = (case a of
                     Num x \<Rightarrow> if x < 0 then NaN else if x = 0 then NegInfinity else fl (log 10 x)
                   | Infinity \<Rightarrow> Infinity
                   | _ \<Rightarrow> NaN)"

definition Math_sqrt :: "number \<Rightarrow> number" where
  "Math_sqrt a = (case a of
                    Num x \<Rightarrow> if x < 0 then NaN else fl (sqrt x)
                  | Infinity \<Rightarrow> Infinity
                  | _ \<Rightarrow> NaN)"

text \<open>\<open>Math.PI\<close>, the double nearest to \<open>\<pi>\<close>.\<close>

definition Math_PI :: number where
  "Math_PI = Num (884279719003555 / 2 ^ 48)"

text \<open>\<open>parseInt\<close> on a decimal integer literal: the double nearest to the integer.\<close>

definition parseInt :: "int \<Rightarrow> number" where
  "parseInt n = fl (real_of_int n)"

text \<open>A decimal literal of the source text, such as \<open>1.3\<close> or \<open>1e-6\<close>.\<close>

definition literal :: "real \<Rightarrow> number" where
  "literal q = fl q"

definition clamp :: "number \<Rightarrow> number \<Rightarrow> number \<Rightarrow> number" where
  "clamp x lo hi = Math_max lo (Math_min hi x)"

section \<open>Fixed-point codec (pl0\_cpu\_sim.js)\<close>

definition MAX_FX :: number where
  "MAX_FX = Num 2147483647"

definition fxToFloat :: "number \<Rightarrow> number \<Rightarrow> number" where
  "fxToFloat xFx fxScale = js_div xFx fxScale"

definition floatToFx :: "number \<Rightarrow> number \<Rightarrow> number" where
  "floatToFx x fxScale = (let v = Math_round (js_mul x fxScale) in clamp v (js_neg MAX_FX) MAX_FX)"

section \<open>Deterministic reference of the unary math instructions\<close>

datatype math_op = FSIN | FCOS | FTAN | FTANH | FSINH | FCOSH | FLN | FLOG10 | FEXP | FSQRT

fun refMathFx :: "math_op \<Rightarrow> number \<Rightarrow> number \<Rightarrow> number" where
  "refMathFx FSIN xFx fxScale =
     (let x = clamp (fxToFloat xFx fxScale) (js_neg Math_PI) Math_PI
      in floatToFx (Math_sin x) fxScale)"
| "refMathFx FCOS xFx fxScale =
     (let x = clamp (fxToFloat xFx fxScale) (js_neg Math_PI) Math_PI
      in floatToFx (Math_cos x) fxScale)"
| "refMathFx FTAN xFx fxScale =
     (let x = clamp (fxToFloat xFx fxScale) (js_neg (literal (13 / 10))) (literal (13 / 10));
          t = Math_tan x
      in floatToFx (clamp t (Num (- 8)) (Num 8)) fxScale)"
| "refMathFx FTANH xFx fxScale =
     (let x = clamp (fxToFloat xFx fxScale) (Num (- 3)) (Num 3)
      in floatToFx (Math_tanh x) fxScale)"
| "refMathFx FSINH xFx fxScale =
     (let x = clamp (fxToFloat xFx fxScale) (Num (- 3)) (Num 3)
      in floatToFx (clamp (Math_sinh x) (Num (- 8)) (Num 8)) fxScale)"
| "refMathFx FCOSH xFx fxScale =
     (let x = clamp (fxToFloat xFx fxScale) (Num (- 3)) (Num 3)
      in floatToFx (clamp (Math_cosh x) (Num 0) (Num 10)) fxScale)"
| "refMathFx FLN xFx fxScale =
     (let x0 = fxToFloat xFx fxScale in
      if js_le x0 (Num 0) then floatToFx (Num (- 16)) fxScale
      else let x = clamp x0 (literal (1 / 1000000)) (Num 256)
           in floatToFx (clamp (Math_log x) (Num (- 16)) (Num 16)) fxScale)"
| "refMathFx FLOG10 xFx fxScale =
     (let x0 = fxToFloat xFx fxScale in
      if js_le x0 (Num 0) then floatToFx (Num (- 16)) fxScale
      else let x = clamp x0 (literal (1 / 1000000)) (Num 256)
           in floatToFx (clamp (Math_log10 x) (Num (- 16)) (Num 16)) fxScale)"
| "refMathFx FEXP xFx fxScale =
     (let x = clamp (fxToFloat xFx fxScale) (Num (- 8)) (Num 8)
      in floatToFx (clamp (Math_exp x) (Num 0) (Num 256)) fxScale)"
| "refMathFx FSQRT xFx fxScale =
     (let x = clamp (fxToFloat xFx fxScale) (Num 0) (Num 256);
          y = (if js_le x (Num 0) then Num 0 else Math_sqrt x)
      in floatToFx (clamp y (Num 0) (Num 16)) fxScale)"

section \<open>Fatal errors\<close>

text \<open>
  Every \<open>throw\<close> of the source is a value of this type. A run that throws returns the
  error together with the state as the throw leaves it.
\<close>

datatype error =
    Register_out_of_range nat
  | Data_stack_overflow
  | Data_stack_underflow
  | Division_by_zero
  | Unknown_label string
  | No_compiled_program string
  | Unknown_instruction string
  | Exceeded_maxSteps nat
  | Unsupported_op math_op
  | Bad_combined_length nat nat
  | TypeError string
  | Provider_threw string

section \<open>The binary arithmetic provider (neural\_alu.js)\<close>

datatype alu_op = ADD | SUB | MUL | DIV

datatype architecture = Mlp | Linear

datatype div_decode = DecodeFloor | DecodeRound | DecodeTrunc

text \<open>
  The four networks are learned approximators; each one is represented by the function
  that its \<open>predict\<close> method computes from the feature vector.
\<close>

record NeuralALU =
  scale :: number
  architecture :: architecture
  mix :: number
  safetyFallback :: bool
  fallbackAbsError :: number
  divDecode :: div_decode
  addNet :: "number list \<Rightarrow> number"
  subNet :: "number list \<Rightarrow> number"
  mulNet :: "number list \<Rightarrow> number"
  divNet :: "number list \<Rightarrow> number"

record detail =
  result :: number
  exact :: number
  pred :: number
  usedFallback :: bool

record alu_detail = detail +
  mixed :: number

definition featuresMLP :: "number \<Rightarrow> number \<Rightarrow> number \<Rightarrow> number list" where
  "featuresMLP a b sc =
     (let mulNorm = clamp (js_mul (js_mul a b) sc) (Num (- 1)) (Num 1)
      in [a, b, mulNorm, Math_abs a, Math_abs b])"

definition featuresLinear :: "number \<Rightarrow> number \<Rightarrow> number \<Rightarrow> number list" where
  "featuresLinear aInt bInt sc =
     (let a = clamp (js_div aInt sc) (Num (- 1)) (Num 1);
          b = clamp (js_div bInt sc) (Num (- 1)) (Num 1);
          sum = clamp (js_div (js_add aInt bInt) sc) (Num (- 1)) (Num 1);
          diff = clamp (js_div (js_sub aInt bInt) sc) (Num (- 1)) (Num 1);
          mul = clamp (js_div (js_mul aInt bInt) sc) (Num (- 1)) (Num 1);
          dv = (if bInt = Num 0 then Num 0
                else clamp (js_div (js_div aInt bInt) sc) (Num (- 1)) (Num 1));
          absB = clamp (js_div (Math_abs bInt) sc) (Num 0) (Num 1)
      in [a, b, sum, diff, mul, dv, absB])"

definition encInt :: "NeuralALU \<Rightarrow> number \<Rightarrow> number" where
  "encInt alu x = clamp (js_div x (scale alu)) (Num (- 1)) (Num 1)"

definition decodeInt :: "NeuralALU \<Rightarrow> number \<Rightarrow> alu_op \<Rightarrow> number" where
  "decodeInt alu y op =
     (let yy = js_mul (clamp y (Num (- 1)) (Num 1)) (scale alu) in
      if op = DIV then
        (if divDecode alu = DecodeTrunc then Math_trunc yy
         else if divDecode alu = DecodeRound then Math_round yy
         else Math_floor yy)
      else Math_round yy)"

definition computeDetailed :: "NeuralALU \<Rightarrow> alu_op \<Rightarrow> number \<Rightarrow> number \<Rightarrow> alu_detail" where
  "computeDetailed alu op aInt bInt =
     (let ex = (case op of
                  ADD \<Rightarrow> js_add aInt bInt
                | SUB \<Rightarrow> js_sub aInt bInt
                | MUL \<Rightarrow> js_mul aInt bInt
                | DIV \<Rightarrow> (if bInt = Num 0 then Num 0 else Math_floor (js_div aInt bInt)));
          a = encInt alu aInt;
          b = encInt alu bInt;
          x = (if architecture alu = Linear then featuresLinear aInt bInt (scale alu)
               else featuresMLP a b (scale alu));
          y = (case op of
                 ADD \<Rightarrow> addNet alu x
               | SUB \<Rightarrow> subNet alu x
               | MUL \<Rightarrow> mulNet alu x
               | DIV \<Rightarrow> divNet alu x);
          pr = decodeInt alu y op;
          mx = Math_round (js_add (js_mul ex (js_sub (Num 1) (mix alu))) (js_mul pr (mix alu)));
          fb = (safetyFallback alu \<and> js_gt (Math_abs (js_sub mx ex)) (fallbackAbsError alu))
      in \<lparr>result = (if fb then ex else mx), exact = ex, pred = pr, usedFallback = fb, mixed = mx\<rparr>)"

definition compute :: "NeuralALU \<Rightarrow> alu_op \<Rightarrow> number \<Rightarrow> number \<Rightarrow> number" where
  "compute alu op aInt bInt = result (computeDetailed alu op aInt bInt)"

section \<open>The NARX network (narx.js)\<close>

record NARX =
  inputLag :: nat
  outputLag :: nat
  hiddenUnits :: nat
  weightsInputHidden :: "number list list"
  biasHidden :: "number list"
  weightsHiddenOutput :: "number list"
  biasOutput :: number

definition inputSize :: "NARX \<Rightarrow> nat" where
  "inputSize net = inputLag net + outputLag net"

definition activation :: "number \<Rightarrow> number" where
  "activation x = js_div (Num 1) (js_add (Num 1) (Math_exp (js_neg x)))"

text \<open>The forward pass; the result is the field \<open>output\<close> of the source's return value.\<close>

definition forward :: "NARX \<Rightarrow> number list \<Rightarrow> error + number" where
  "forward net combined =
     (if length combined \<noteq> inputSize net
      then Inl (Bad_combined_length (inputSize net) (length combined))
      else
        let hidden = map (\<lambda>h. activation
                       (foldl (\<lambda>sum k. js_add sum (js_mul (weightsInputHidden net ! h ! k) (combined ! k)))
                          (biasHidden net ! h) [0..<inputSize net]))
                     [0..<hiddenUnits net];
            netOutput = foldl (\<lambda>acc h. js_add acc (js_mul (weightsHiddenOutput net ! h) (hidden ! h)))
                          (biasOutput net) [0..<hiddenUnits net]
        in Inr (activation netOutput))"

section \<open>The unary math provider (neural\_math\_narx.js)\<close>

record op_spec =
  inLo :: number
  inHi :: number
  outLo :: number
  outHi :: number

fun DEFAULT_OP_SPECS :: "math_op \<Rightarrow> op_spec" where
  "DEFAULT_OP_SPECS FSIN = \<lparr>inLo = js_neg Math_PI, inHi = Math_PI, outLo = Num (- 1), outHi = Num 1\<rparr>"
| "DEFAULT_OP_SPECS FCOS = \<lparr>inLo = js_neg Math_PI, inHi = Math_PI, outLo = Num (- 1), outHi = Num 1\<rparr>"
| "DEFAULT_OP_SPECS FTAN = \<lparr>inLo = js_neg (literal (13 / 10)), inHi = literal (13 / 10),
                              outLo = Num (- 8), outHi = Num 8\<rparr>"
| "DEFAULT_OP_SPECS FTANH = \<lparr>inLo = Num (- 3), inHi = Num 3, outLo = Num (- 1), outHi = Num 1\<rparr>"
| "DEFAULT_OP_SPECS FSINH = \<lparr>inLo = Num (- 3), inHi = Num 3, outLo = Num (- 8), outHi = Num 8\<rparr>"
| "DEFAULT_OP_SPECS FCOSH = \<lparr>inLo = Num (- 3), inHi = Num 3, outLo = Num 0, outHi = Num 10\<rparr>"
| "DEFAULT_OP_SPECS FLN = \<lparr>inLo = literal (1 / 1000000), inHi = Num 256,
                             outLo = Num (- 16), outHi = Num 16\<rparr>"
| "DEFAULT_OP_SPECS FLOG10 = \<lparr>inLo = literal (1 / 1000000), inHi = Num 256,
                                outLo = Num (- 16), outHi = Num 16\<rparr>"
| "DEFAULT_OP_SPECS FEXP = \<lparr>inLo = Num (- 8), inHi = Num 8, outLo = Num 0, outHi = Num 256\<rparr>"
| "DEFAULT_OP_SPECS FSQRT = \<lparr>inLo = Num 0, inHi = Num 256, outLo = Num 0, outHi = Num 16\<rparr>"

definition encodeNormFromRange :: "number \<Rightarrow> number \<Rightarrow> number \<Rightarrow> number" where
  "encodeNormFromRange x lo hi =
     (if \<not> js_gt hi lo then Num (1 / 2)
      else clamp (js_div (js_sub x lo) (js_sub hi lo)) (Num 0) (Num 1))"

definition decodeNormToRange :: "number \<Rightarrow> number \<Rightarrow> number \<Rightarrow> number" where
  "decodeNormToRange u lo hi =
     (let uu = clamp u (Num 0) (Num 1) in js_add lo (js_mul uu (js_sub hi lo)))"

text \<open>
  The provider's file has its own reference function: it clamps the input to the range of
  \<open>DEFAULT_OP_SPECS\<close> first.
\<close>

definition refMathFx_narx :: "math_op \<Rightarrow> number \<Rightarrow> number \<Rightarrow> number" where
  "refMathFx_narx op xFx sc =
     (let spec = DEFAULT_OP_SPECS op;
          x0 = fxToFloat xFx sc;
          x = clamp x0 (inLo spec) (inHi spec)
      in case op of
           FSIN \<Rightarrow> floatToFx (Math_sin x) sc
         | FCOS \<Rightarrow> floatToFx (Math_cos x) sc
         | FTAN \<Rightarrow> floatToFx (clamp (Math_tan x) (Num (- 8)) (Num 8)) sc
         | FTANH \<Rightarrow> floatToFx (Math_tanh x) sc
         | FSINH \<Rightarrow> floatToFx (clamp (Math_sinh x) (Num (- 8)) (Num 8)) sc
         | FCOSH \<Rightarrow> floatToFx (clamp (Math_cosh x) (Num 0) (Num 10)) sc
         | FLN \<Rightarrow> (if js_le x (Num 0) then floatToFx (outLo (DEFAULT_OP_SPECS FLN)) sc
                    else floatToFx (clamp (Math_log x) (Num (- 16)) (Num 16)) sc)
         | FLOG10 \<Rightarrow> (if js_le x (Num 0) then floatToFx (outLo (DEFAULT_OP_SPECS FLOG10)) sc
                       else floatToFx (clamp (Math_log10 x) (Num (- 16)) (Num 16)) sc)
         | FEXP \<Rightarrow> floatToFx (clamp (Math_exp x) (Num 0) (Num 256)) sc
         | FSQRT \<Rightarrow> floatToFx (clamp (if js_le x (Num 0) then Num 0 else Math_sqrt x)
                                 (Num 0) (Num 16)) sc)"

record lag_state =
  inHist :: "number list"
  outHist :: "number list"

record math_stats =
  calls :: "math_op \<Rightarrow> nat"
  math_fallbacks :: "math_op \<Rightarrow> nat"
  math_absErrorSum :: "math_op \<Rightarrow> number"

text \<open>
  The fields \<open>scale\<close>, \<open>mix\<close>, \<open>safetyFallback\<close> and \<open>fallbackAbsError\<close> of the
  class carry the prefix \<open>math_\<close> here. \<open>nets\<close> and \<open>state\<close> are the two objects keyed
  by op name; \<open>state\<close> holds the lag histories and is mutated by every call.
\<close>

record NeuralMathNARX =
  math_scale :: number
  math_mix :: number
  math_safetyFallback :: bool
  math_fallbackAbsError :: number
  opSpecs :: "math_op \<Rightarrow> op_spec"
  nets :: "math_op \<rightharpoonup> NARX"
  state :: "math_op \<rightharpoonup> lag_state"
  stats :: math_stats

record math_detail = detail +
  outNorm :: number
  exactNorm :: number
  predNorm :: number

text \<open>
  \<open>computeDetailed\<close> of the math provider. It returns the diagnostics together with
  the provider after the call: \<open>pop\<close> and \<open>unshift\<close> on a history drop its last entry and
  put the new one in front. Where the network throws, the input history is already
  shifted.
\<close>

definition computeDetailed_narx ::
  "NeuralMathNARX \<Rightarrow> math_op \<Rightarrow> number \<Rightarrow>
     (error \<times> NeuralMathNARX) + (math_detail \<times> NeuralMathNARX)" where
  "computeDetailed_narx p op xFx =
     (case nets p op of
        None \<Rightarrow> Inl (Unsupported_op op, p)
      | Some net \<Rightarrow>
         (case state p op of
            None \<Rightarrow> Inl (Unsupported_op op, p)
          | Some s \<Rightarrow>
             let spec = opSpecs p op;
                 x = fxToFloat xFx (math_scale p);
                 inNorm = encodeNormFromRange x (inLo spec) (inHi spec);
                 inHist1 = inNorm # butlast (inHist s);
                 combined = inHist1 @ outHist s
             in case forward net combined of
                  Inl e \<Rightarrow> Inl (e, p\<lparr>state := (state p)(op \<mapsto> s\<lparr>inHist := inHist1\<rparr>)\<rparr>)
                | Inr ySig \<Rightarrow>
                   let exactFx = refMathFx_narx op xFx (math_scale p);
                       ex = fxToFloat exactFx (math_scale p);
                       exNorm = encodeNormFromRange ex (outLo spec) (outHi spec);
                       mixedNorm = clamp (js_add (js_mul exNorm (js_sub (Num 1) (math_mix p)))
                                                 (js_mul ySig (math_mix p))) (Num 0) (Num 1);
                       absErr = Math_abs (js_sub ySig exNorm);
                       fb = (math_safetyFallback p \<and> js_gt absErr (math_fallbackAbsError p));
                       oNorm = (if fb then exNorm else mixedNorm);
                       outHist1 = clamp oNorm (Num 0) (Num 1) # butlast (outHist s);
                       resultFloat = decodeNormToRange oNorm (outLo spec) (outHi spec);
                       predFloat = decodeNormToRange ySig (outLo spec) (outHi spec);
                       res = floatToFx resultFloat (math_scale p);
                       pr = floatToFx predFloat (math_scale p);
                       st = stats p;
                       st1 = st\<lparr>calls := (calls st)(op := calls st op + 1),
                                 math_absErrorSum :=
                                   (math_absErrorSum st)(op := js_add (math_absErrorSum st op) absErr),
                                 math_fallbacks :=
                                   (if fb then (math_fallbacks st)(op := math_fallbacks st op + 1)
                                    else math_fallbacks st)\<rparr>
                   in Inr (\<lparr>result = res, exact = exactFx, pred = pr, usedFallback = fb,
                             outNorm = oNorm, exactNorm = exNorm, predNorm = ySig\<rparr>,
                           p\<lparr>state := (state p)(op \<mapsto> \<lparr>inHist = inHist1, outHist = outHist1\<rparr>),
                             stats := st1\<rparr>)))"

definition compute_narx ::
  "NeuralMathNARX \<Rightarrow> math_op \<Rightarrow> number \<Rightarrow> (error \<times> NeuralMathNARX) + (number \<times> NeuralMathNARX)" where
  "compute_narx p op xFx =
     (case computeDetailed_narx p op xFx of
        Inl e \<Rightarrow> Inl e
      | Inr (d, p1) \<Rightarrow> Inr (result d, p1))"

section \<open>The CPU simulator (pl0\_cpu\_sim.js)\<close>

subsection \<open>Instructions and machine state\<close>

text \<open>
  An instruction line is held in its tokenised form: the mnemonic (upper-cased by the
  dispatcher) with its operands. A register token \<open>rN\<close> is the index \<open>N\<close>, an immediate
  \<open>#n\<close> and a bracketed literal \<open>[n]\<close> the decimal integer \<open>n\<close> of the text (made a number
  by \<open>parseInt\<close> when the line is executed), a bracketed register \<open>[rN]\<close> the index \<open>N\<close>,
  a line ending in a colon a \<open>Label\<close>, an empty line \<open>Blank\<close>; any other mnemonic is
  \<open>Unknown\<close>.
\<close>

datatype addr_token = AddrReg nat | AddrImm int

datatype load_operand = Immediate int | Address addr_token

text \<open>The object \<open>{mode, reg}\<close> or \<open>{mode, addr}\<close> that \<open>_parseAddrBracket\<close> returns.\<close>

datatype addr_spec = ModeReg nat | ModeImm number

datatype instr =
    Blank
  | Label string
  | LOAD nat load_operand
  | STORE nat addr_token
  | PEEK nat addr_token
  | POKE nat addr_token
  | PUSH nat
  | POP nat
  | Arith alu_op nat nat
  | Math math_op nat
  | JMP string
  | JZ nat string
  | JNZ nat string
  | CALL string
  | PL0CALL string
  | RET
  | HALT
  | Unknown string

text \<open>
  A call-stack entry is a bare return index (pushed by \<open>CALL\<close>) or a context frame
  (pushed by \<open>PL0CALL\<close>).
\<close>

datatype frame =
    ReturnIndex nat
  | Context (frame_instructions: "instr list") (frame_labelMap: "string \<rightharpoonup> nat") (returnPointer: nat)

text \<open>
  A provider object either has the method \<open>computeDetailed\<close>, as the classes of this
  repository have, or only \<open>compute\<close>. A provider of the second kind is any object of
  the caller: it may keep state and it may throw. It is held as the list of the calls
  made to it so far and the function that gives, for that history, the outcome of the
  next call; every call is added to the history, whatever its outcome.
\<close>

datatype alu_provider =
    Detailed NeuralALU
  | ComputeOnly (alu_calls: "(alu_op \<times> number \<times> number) list")
      (alu_behaviour: "(alu_op \<times> number \<times> number) list \<Rightarrow> alu_op \<Rightarrow> number \<Rightarrow> number \<Rightarrow> error + number")

datatype math_provider =
    DetailedMath NeuralMathNARX
  | ComputeOnlyMath (math_calls: "(math_op \<times> number) list")
      (math_behaviour: "(math_op \<times> number) list \<Rightarrow> math_op \<Rightarrow> number \<Rightarrow> error + number")

record neural_stats =
  enabled :: bool
  ops :: "alu_op \<Rightarrow> nat"
  fallbacks :: "alu_op \<Rightarrow> nat"
  absErrorSum :: "alu_op \<Rightarrow> number"

text \<open>
  \<open>memory\<close> is the array of cells. \<open>memoryProps\<close> holds what a store under a key that
  is not an array index (NaN, a negative or a fractional number) leaves on the array
  object.
\<close>

record PL0CPU =
  regs :: "number list"
  memory :: "number list"
  memoryProps :: "number \<rightharpoonup> number"
  instructions :: "instr list"
  pointer :: nat
  running :: bool
  labelMap :: "string \<rightharpoonup> nat"
  callStack :: "frame list"
  dataStack :: "number list"
  dataStackMax :: nat
  fxScale :: number
  neuralALU :: "alu_provider option"
  neuralMath :: "math_provider option"
  trackNeuralStats :: bool
  neuralStats :: neural_stats

text \<open>The field \<open>numRegs\<close> is the length of the register file, fixed by the constructor.\<close>

definition numRegs :: "PL0CPU \<Rightarrow> nat" where
  "numRegs s = length (regs s)"

text \<open>The constructor, with the options \<open>fxScale\<close>, \<open>neuralALU\<close> and \<open>neuralMath\<close>.\<close>

definition new_PL0CPU ::
  "nat \<Rightarrow> nat \<Rightarrow> nat \<Rightarrow> number \<Rightarrow> alu_provider option \<Rightarrow> math_provider option \<Rightarrow> PL0CPU" where
  "new_PL0CPU nRegs memorySize dataStackSize fx alu mth =
     \<lparr>regs = replicate nRegs (Num 0),
      memory = replicate memorySize (Num 0),
      memoryProps = Map.empty,
      instructions = [],
      pointer = 0,
      running = False,
      labelMap = Map.empty,
      callStack = [],
      dataStack = [],
      dataStackMax = dataStackSize,
      fxScale = (case fx of Num r \<Rightarrow> fx | _ \<Rightarrow> Num 65536),
      neuralALU = alu,
      neuralMath = mth,
      trackNeuralStats = (alu \<noteq> None \<or> mth \<noteq> None),
      neuralStats = \<lparr>enabled = (alu \<noteq> None), ops = (\<lambda>_. 0), fallbacks = (\<lambda>_. 0),
                      absErrorSum = (\<lambda>_. Num 0)\<rparr>\<rparr>"

definition addInstructions :: "PL0CPU \<Rightarrow> instr list \<Rightarrow> PL0CPU" where
  "addInstructions s lines = s\<lparr>instructions := instructions s @ lines\<rparr>"

subsection \<open>Lookups in plain objects\<close>

text \<open>
  The registry \<open>PL0Programs\<close> and the label table are plain objects, so a lookup also
  finds what they inherit from \<open>Object.prototype\<close>. For an inherited name this gives
  the \<open>length\<close> of the value found: the arity of a function, or nothing for the
  prototype object under \<open>__proto__\<close>.
\<close>

definition Object_prototype :: "string \<rightharpoonup> nat option" where
  "Object_prototype =
     [''constructor'' \<mapsto> Some 1,
      ''__defineGetter__'' \<mapsto> Some 2,
      ''__defineSetter__'' \<mapsto> Some 2,
      ''hasOwnProperty'' \<mapsto> Some 1,
      ''__lookupGetter__'' \<mapsto> Some 1,
      ''__lookupSetter__'' \<mapsto> Some 1,
      ''isPrototypeOf'' \<mapsto> Some 1,
      ''propertyIsEnumerable'' \<mapsto> Some 1,
      ''toString'' \<mapsto> Some 0,
      ''valueOf'' \<mapsto> Some 0,
      ''toLocaleString'' \<mapsto> Some 0,
      ''__proto__'' \<mapsto> None]"

text \<open>
  The label table: a later label of the same name overwrites an earlier one. An
  assignment to \<open>__proto__\<close> with a number leaves the object as it is.
\<close>

definition buildLabelMap :: "instr list \<Rightarrow> (string \<rightharpoonup> nat)" where
  "buildLabelMap ins =
     fold (\<lambda>(i, line) m.
             case line of
               Label l \<Rightarrow> if l = ''__proto__'' then m else m(l \<mapsto> i)
             | _ \<Rightarrow> m)
       (enumerate 0 ins) Map.empty"

text \<open>
  What \<open>label in this.labelMap\<close> and \<open>this.labelMap[label]\<close> give: an instruction
  index, a value that is not a number (an inherited property), or nothing.
\<close>

datatype label_target = Target nat | NotANumber | Missing

definition lookup_label :: "PL0CPU \<Rightarrow> string \<Rightarrow> label_target" where
  "lookup_label s label =
     (case labelMap s label of
        Some i \<Rightarrow> Target i
      | None \<Rightarrow> if label \<in> dom Object_prototype then NotANumber else Missing)"

text \<open>
  A pointer that is not a number fails the loop test \<open>pointer < instructions.length\<close>,
  which ends the run; it is held as the length of the sequence, which fails it as well.
\<close>

definition jump :: "PL0CPU \<Rightarrow> label_target \<Rightarrow> nat" where
  "jump s t = (case t of Target i \<Rightarrow> i | _ \<Rightarrow> length (instructions s))"

subsection \<open>Operand decoding\<close>

definition bind_e :: "'e + 'a \<Rightarrow> ('a \<Rightarrow> 'e + 'b) \<Rightarrow> 'e + 'b" where
  "bind_e r f = (case r of Inl e \<Rightarrow> Inl e | Inr x \<Rightarrow> f x)"

definition parseReg :: "PL0CPU \<Rightarrow> nat \<Rightarrow> (error \<times> PL0CPU) + nat" where
  "parseReg s idx = (if idx \<ge> numRegs s then Inl (Register_out_of_range idx, s) else Inr idx)"

definition parseAddrBracket :: "PL0CPU \<Rightarrow> addr_token \<Rightarrow> (error \<times> PL0CPU) + addr_spec" where
  "parseAddrBracket s tok =
     (case tok of
        AddrReg r \<Rightarrow> bind_e (parseReg s r) (\<lambda>r. Inr (ModeReg r))
      | AddrImm n \<Rightarrow> Inr (ModeImm (parseInt n)))"

text \<open>\<open>_loadAddr\<close>: the address is \<open>((addr % m) + m) % m\<close> for the memory length \<open>m\<close>.\<close>

definition loadAddr :: "PL0CPU \<Rightarrow> addr_spec \<Rightarrow> number" where
  "loadAddr s addrSpec =
     (let addr = (case addrSpec of ModeReg r \<Rightarrow> regs s ! r | ModeImm a \<Rightarrow> a);
          m = Num (real (length (memory s)))
      in js_rem (js_add (js_rem addr m) m) m)"

text \<open>
  A number is an array index when it is a non-negative integer (below \<open>2^32 - 1\<close>, which
  every address is, the memory being shorter than that).
\<close>

definition array_index :: "number \<Rightarrow> nat option" where
  "array_index a =
     (case a of
        Num r \<Rightarrow> if 0 \<le> r \<and> r = real_of_int \<lfloor>r\<rfloor> then Some (nat \<lfloor>r\<rfloor>) else None
      | _ \<Rightarrow> None)"

text \<open>
  Reading a cell or a key that does not exist gives \<open>0\<close> (\<open>memory[a] ?? 0\<close>). Writing at
  an index past the end extends the array; the cells in between read as \<open>0\<close>.
\<close>

definition mem_read :: "PL0CPU \<Rightarrow> number \<Rightarrow> number" where
  "mem_read s a =
     (case array_index a of
        Some i \<Rightarrow> if i < length (memory s) then memory s ! i else Num 0
      | None \<Rightarrow> (case memoryProps s a of Some v \<Rightarrow> v | None \<Rightarrow> Num 0))"

definition mem_write :: "PL0CPU \<Rightarrow> number \<Rightarrow> number \<Rightarrow> PL0CPU" where
  "mem_write s a v =
     (case array_index a of
        Some i \<Rightarrow>
          if i < length (memory s) then s\<lparr>memory := (memory s)[i := v]\<rparr>
          else s\<lparr>memory := memory s @ replicate (i - length (memory s)) (Num 0) @ [v]\<rparr>
      | None \<Rightarrow> s\<lparr>memoryProps := (memoryProps s)(a \<mapsto> v)\<rparr>)"

subsection \<open>Instruction dispatch\<close>

text \<open>The exact path of the four arithmetic instructions; \<open>DIV\<close> is \<open>Math.floor(a / b)\<close>.\<close>

definition native_arith :: "alu_op \<Rightarrow> number \<Rightarrow> number \<Rightarrow> number" where
  "native_arith op a b =
     (case op of
        ADD \<Rightarrow> js_add a b
      | SUB \<Rightarrow> js_sub a b
      | MUL \<Rightarrow> js_mul a b
      | DIV \<Rightarrow> Math_floor (js_div a b))"

text \<open>
  The body shared by the cases \<open>ADD\<close>, \<open>SUB\<close>, \<open>MUL\<close> and \<open>DIV\<close> after the register
  tokens are decoded (and, for \<open>DIV\<close>, after the zero check). A provider that throws
  has been called: its history holds the call.
\<close>

definition arith_body :: "PL0CPU \<Rightarrow> alu_op \<Rightarrow> nat \<Rightarrow> nat \<Rightarrow> (error \<times> PL0CPU) + PL0CPU" where
  "arith_body s op rX rY =
     (let a = regs s ! rX; b = regs s ! rY; st = neuralStats s in
      case neuralALU s of
        Some (Detailed alu) \<Rightarrow>
          let d = computeDetailed alu op a b in
          Inr (s\<lparr>regs := (regs s)[rX := result d],
                 neuralStats :=
                   (if trackNeuralStats s
                    then st\<lparr>ops := (ops st)(op := ops st op + 1),
                            absErrorSum := (absErrorSum st)(op :=
                              js_add (absErrorSum st op) (Math_abs (js_sub (pred d) (exact d)))),
                            fallbacks := (if usedFallback d
                                          then (fallbacks st)(op := fallbacks st op + 1)
                                          else fallbacks st)\<rparr>
                    else st),
                 pointer := pointer s + 1\<rparr>)
      | Some (ComputeOnly h f) \<Rightarrow>
          let s1 = s\<lparr>neuralALU := Some (ComputeOnly (h @ [(op, a, b)]) f)\<rparr> in
          (case f h op a b of
             Inl e \<Rightarrow> Inl (e, s1)
           | Inr v \<Rightarrow>
               Inr (s1\<lparr>regs := (regs s)[rX := v],
                       neuralStats :=
                         (if trackNeuralStats s then st\<lparr>ops := (ops st)(op := ops st op + 1)\<rparr>
                          else st),
                       pointer := pointer s + 1\<rparr>))
      | None \<Rightarrow>
          Inr (s\<lparr>regs := (regs s)[rX := native_arith op a b], pointer := pointer s + 1\<rparr>))"

definition exec_arith :: "PL0CPU \<Rightarrow> alu_op \<Rightarrow> nat \<Rightarrow> nat \<Rightarrow> (error \<times> PL0CPU) + PL0CPU" where
  "exec_arith s op rxTok ryTok =
     bind_e (parseReg s rxTok) (\<lambda>rX.
     bind_e (parseReg s ryTok) (\<lambda>rY.
       if op = DIV \<and> regs s ! rY = Num 0 then Inl (Division_by_zero, s)
       else arith_body s op rX rY))"

definition exec_math :: "PL0CPU \<Rightarrow> math_op \<Rightarrow> nat \<Rightarrow> (error \<times> PL0CPU) + PL0CPU" where
  "exec_math s op rxTok =
     bind_e (parseReg s rxTok) (\<lambda>rX.
       case neuralMath s of
         Some (DetailedMath p) \<Rightarrow>
           (case computeDetailed_narx p op (regs s ! rX) of
              Inl (e, p1) \<Rightarrow> Inl (e, s\<lparr>neuralMath := Some (DetailedMath p1)\<rparr>)
            | Inr (d, p1) \<Rightarrow>
                Inr (s\<lparr>regs := (regs s)[rX := result d],
                       neuralMath := Some (DetailedMath p1),
                       pointer := pointer s + 1\<rparr>))
       | Some (ComputeOnlyMath h f) \<Rightarrow>
           let s1 = s\<lparr>neuralMath := Some (ComputeOnlyMath (h @ [(op, regs s ! rX)]) f)\<rparr> in
           (case f h op (regs s ! rX) of
              Inl e \<Rightarrow> Inl (e, s1)
            | Inr v \<Rightarrow> Inr (s1\<lparr>regs := (regs s)[rX := v], pointer := pointer s + 1\<rparr>))
       | None \<Rightarrow>
           Inr (s\<lparr>regs := (regs s)[rX := refMathFx op (regs s ! rX) (fxScale s)],
                  pointer := pointer s + 1\<rparr>))"

definition exec_load_mem :: "PL0CPU \<Rightarrow> nat \<Rightarrow> addr_token \<Rightarrow> (error \<times> PL0CPU) + PL0CPU" where
  "exec_load_mem s rX addrTok =
     bind_e (parseAddrBracket s addrTok) (\<lambda>addrSpec.
       let a = loadAddr s addrSpec in
       Inr (s\<lparr>regs := (regs s)[rX := mem_read s a], pointer := pointer s + 1\<rparr>))"

definition exec_store_mem :: "PL0CPU \<Rightarrow> nat \<Rightarrow> addr_token \<Rightarrow> (error \<times> PL0CPU) + PL0CPU" where
  "exec_store_mem s rX addrTok =
     bind_e (parseAddrBracket s addrTok) (\<lambda>addrSpec.
       let a = loadAddr s addrSpec in
       Inr ((mem_write s a (regs s ! rX))\<lparr>pointer := pointer s + 1\<rparr>))"

text \<open>
  \<open>PL0CALL\<close> of a name that the registry only inherits finds a value that is not a
  program: the frame is pushed and the value made the instruction sequence. It has no
  lines (the sequence is empty here); where its \<open>length\<close> is positive,
  \<open>buildLabelMap\<close> throws on its first line, after it has emptied the label table.
\<close>

definition call_program :: "(string \<rightharpoonup> instr list) \<Rightarrow> PL0CPU \<Rightarrow> string \<Rightarrow> (error \<times> PL0CPU) + PL0CPU" where
  "call_program progs s programName =
     (let pushed = s\<lparr>callStack := callStack s @ [Context (instructions s) (labelMap s) (pointer s + 1)]\<rparr>
      in case progs programName of
           Some newInstrs \<Rightarrow>
             Inr (pushed\<lparr>instructions := newInstrs,
                        labelMap := buildLabelMap newInstrs,
                        pointer := 0\<rparr>)
         | None \<Rightarrow>
             (case Object_prototype programName of
                None \<Rightarrow> Inl (No_compiled_program programName, s)
              | Some len \<Rightarrow>
                  let s1 = pushed\<lparr>instructions := [], labelMap := Map.empty\<rparr> in
                  if (case len of Some n \<Rightarrow> 0 < n | None \<Rightarrow> False)
                  then Inl (TypeError ''Cannot read properties of undefined (reading trim)'', s1)
                  else Inr (s1\<lparr>pointer := 0\<rparr>)))"

text \<open>
  One pass through the \<open>switch\<close> of \<open>execute\<close>. \<open>progs\<close> holds the own properties of
  the global registry \<open>PL0Programs\<close> of compiled programs.
\<close>

fun exec_instr :: "(string \<rightharpoonup> instr list) \<Rightarrow> PL0CPU \<Rightarrow> instr \<Rightarrow> (error \<times> PL0CPU) + PL0CPU" where
  "exec_instr progs s (LOAD regTok (Immediate imm)) =
     bind_e (parseReg s regTok) (\<lambda>rX.
       Inr (s\<lparr>regs := (regs s)[rX := parseInt imm], pointer := pointer s + 1\<rparr>))"
| "exec_instr progs s (LOAD regTok (Address addrTok)) =
     bind_e (parseReg s regTok) (\<lambda>rX. exec_load_mem s rX addrTok)"
| "exec_instr progs s (STORE regTok addrTok) =
     bind_e (parseReg s regTok) (\<lambda>rX. exec_store_mem s rX addrTok)"
| "exec_instr progs s (PEEK regTok addrTok) =
     bind_e (parseReg s regTok) (\<lambda>rX. exec_load_mem s rX addrTok)"
| "exec_instr progs s (POKE regTok addrTok) =
     bind_e (parseReg s regTok) (\<lambda>rX. exec_store_mem s rX addrTok)"
| "exec_instr progs s (PUSH regTok) =
     bind_e (parseReg s regTok) (\<lambda>rX.
       if length (dataStack s) \<ge> dataStackMax s then Inl (Data_stack_overflow, s)
       else Inr (s\<lparr>dataStack := dataStack s @ [regs s ! rX], pointer := pointer s + 1\<rparr>))"
| "exec_instr progs s (POP regTok) =
     bind_e (parseReg s regTok) (\<lambda>rX.
       if length (dataStack s) = 0 then Inl (Data_stack_underflow, s)
       else Inr (s\<lparr>regs := (regs s)[rX := last (dataStack s)],
                   dataStack := butlast (dataStack s),
                   pointer := pointer s + 1\<rparr>))"
| "exec_instr progs s (Arith op rxTok ryTok) = exec_arith s op rxTok ryTok"
| "exec_instr progs s (Math op rxTok) = exec_math s op rxTok"
| "exec_instr progs s (JMP label) =
     (case lookup_label s label of
        Missing \<Rightarrow> Inl (Unknown_label label, s)
      | t \<Rightarrow> Inr (s\<lparr>pointer := jump s t\<rparr>))"
| "exec_instr progs s (JZ rxTok label) =
     bind_e (parseReg s rxTok) (\<lambda>rX.
       case lookup_label s label of
         Missing \<Rightarrow> Inl (Unknown_label label, s)
       | t \<Rightarrow> Inr (s\<lparr>pointer := (if regs s ! rX = Num 0 then jump s t else pointer s + 1)\<rparr>))"
| "exec_instr progs s (JNZ rxTok label) =
     bind_e (parseReg s rxTok) (\<lambda>rX.
       case lookup_label s label of
         Missing \<Rightarrow> Inl (Unknown_label label, s)
       | t \<Rightarrow> Inr (s\<lparr>pointer := (if regs s ! rX \<noteq> Num 0 then jump s t else pointer s + 1)\<rparr>))"
| "exec_instr progs s (CALL label) =
     (case lookup_label s label of
        Missing \<Rightarrow> Inl (Unknown_label label, s)
      | t \<Rightarrow> Inr (s\<lparr>callStack := callStack s @ [ReturnIndex (pointer s + 1)], pointer := jump s t\<rparr>))"
| "exec_instr progs s (PL0CALL programName) = call_program progs s programName"
| "exec_instr progs s RET =
     (if length (callStack s) = 0 then Inr (s\<lparr>running := False\<rparr>)
      else
        let top = last (callStack s); s1 = s\<lparr>callStack := butlast (callStack s)\<rparr> in
        case top of
          ReturnIndex n \<Rightarrow> Inr (s1\<lparr>pointer := n\<rparr>)
        | Context ins lm rp \<Rightarrow> Inr (s1\<lparr>instructions := ins, labelMap := lm, pointer := rp\<rparr>))"
| "exec_instr progs s HALT = Inr (s\<lparr>running := False, pointer := pointer s + 1\<rparr>)"
| "exec_instr progs s (Unknown op) = Inl (Unknown_instruction op, s)"
| "exec_instr progs s Blank = Inr (s\<lparr>pointer := pointer s + 1\<rparr>)"
| "exec_instr progs s (Label l) = Inr (s\<lparr>pointer := pointer s + 1\<rparr>)"

subsection \<open>The run loop\<close>

text \<open>
  The \<open>while\<close> loop of \<open>execute\<close>. The test \<open>steps++ > maxSteps\<close> compares the count of
  the lines fetched so far with \<open>maxSteps\<close> and then counts the line being fetched. The
  result is the final machine together with the final value of \<open>steps\<close>.
\<close>

function exec_loop ::
  "(string \<rightharpoonup> instr list) \<Rightarrow> nat \<Rightarrow> PL0CPU \<Rightarrow> nat \<Rightarrow> (error \<times> PL0CPU) + (PL0CPU \<times> nat)" where
  "exec_loop progs maxSteps s steps =
     (if running s \<and> pointer s < length (instructions s) then
        if steps > maxSteps then Inl (Exceeded_maxSteps maxSteps, s)
        else
          (case exec_instr progs s (instructions s ! pointer s) of
             Inl e \<Rightarrow> Inl e
           | Inr s1 \<Rightarrow> exec_loop progs maxSteps s1 (Suc steps))
      else Inr (s, steps))"
  by pat_completeness auto
termination
  by (relation "measure (\<lambda>(progs, maxSteps, s, steps). Suc maxSteps - steps)") auto

declare exec_loop.simps [simp del]

definition execute ::
  "(string \<rightharpoonup> instr list) \<Rightarrow> PL0CPU \<Rightarrow> nat \<Rightarrow> (error \<times> PL0CPU) + (PL0CPU \<times> nat)" where
  "execute progs s maxSteps =
     exec_loop progs maxSteps
       (s\<lparr>labelMap := buildLabelMap (instructions s), pointer := 0, running := True\<rparr>) 0"

text \<open>Running a list of instructions one after the other through the dispatch.\<close>

fun exec_seq :: "(string \<rightharpoonup> instr list) \<Rightarrow> PL0CPU \<Rightarrow> instr list \<Rightarrow> (error \<times> PL0CPU) + PL0CPU" where
  "exec_seq progs s [] = Inr s"
| "exec_seq progs s (i # is) = bind_e (exec_instr progs s i) (\<lambda>s1. exec_seq progs s1 is)"

subsection \<open>Sample configurations\<close>

text \<open>The machine of the defaults: four registers, 256 cells, scale 65536, no provider.\<close>

definition default_cpu :: PL0CPU where
  "default_cpu = new_PL0CPU 4 256 256 (Num 65536) None None"

text \<open>
  An arithmetic provider with mix factor one half, fallback threshold one half and four
  networks whose output is the constant \<open>1/65536\<close>, so that every prediction decodes to 1.
\<close>

definition half_mix_alu :: NeuralALU where
  "half_mix_alu =
     \<lparr>scale = Num 65536, architecture = Mlp, mix = Num (1 / 2), safetyFallback = True,
      fallbackAbsError = Num (1 / 2), divDecode = DecodeFloor,
      addNet = (\<lambda>x. Num (1 / 65536)), subNet = (\<lambda>x. Num (1 / 65536)),
      mulNet = (\<lambda>x. Num (1 / 65536)), divNet = (\<lambda>x. Num (1 / 65536))\<rparr>"

text \<open>
  The same with the mix factor \<open>0.3\<close> of the source text and the fallback threshold 1.
\<close>

definition three_tenths_alu :: NeuralALU where
  "three_tenths_alu =
     \<lparr>scale = Num 65536, architecture = Mlp, mix = literal (3 / 10), safetyFallback = True,
      fallbackAbsError = Num 1, divDecode = DecodeFloor,
      addNet = (\<lambda>x. Num (1 / 65536)), subNet = (\<lambda>x. Num (1 / 65536)),
      mulNet = (\<lambda>x. Num (1 / 65536)), divNet = (\<lambda>x. Num (1 / 65536))\<rparr>"


text \<open>
  A math provider for \<open>FSIN\<close> alone, with lags of length one, one hidden unit, pure
  network output (mix 1) and the safety fallback switched off.
\<close>

definition lag1_net :: NARX where
  "lag1_net =
     \<lparr>inputLag = 1, outputLag = 1, hiddenUnits = 1,
      weightsInputHidden = [[Num 0, Num 2]], biasHidden = [Num 0],
      weightsHiddenOutput = [Num 6], biasOutput = Num (- 3)\<rparr>"

definition lag1_provider :: NeuralMathNARX where
  "lag1_provider =
     \<lparr>math_scale = Num 65536, math_mix = Num 1, math_safetyFallback = False,
      math_fallbackAbsError = literal (1 / 1000),
      opSpecs = DEFAULT_OP_SPECS,
      nets = [FSIN \<mapsto> lag1_net],
      state = [FSIN \<mapsto> \<lparr>inHist = [Num 0], outHist = [Num 0]\<rparr>],
      stats = \<lparr>calls = (\<lambda>_. 0), math_fallbacks = (\<lambda>_. 0), math_absErrorSum = (\<lambda>_. Num 0)\<rparr>\<rparr>"

text \<open>A registry with one program, and a caller of it.\<close>

definition sub_program :: "instr list" where
  "sub_program = [Label ''L'', LOAD 0 (Immediate 7), RET]"

definition demo_registry :: "string \<rightharpoonup> instr list" where
  "demo_registry = [''sub'' \<mapsto> sub_program]"

definition caller_program :: "instr list" where
  "caller_program = [PL0CALL ''sub'', LOAD 1 (Immediate 5), Label ''L'', HALT]"

section \<open>Properties of the rounding\<close>

lemma pow2_pos: "0 < pow2 e"
  by (simp add: pow2_def)

lemma pow2_add: "pow2 (a + b) = pow2 a * pow2 b"
  by (simp add: pow2_def powr_add)

lemma pow2_nat: "pow2 (int n) = 2 ^ n"
  by (simp add: pow2_def powr_realpow)

lemma pow2_neg: "pow2 (- e) = 1 / pow2 e"
  by (simp add: pow2_def powr_minus_divide)

lemma pow2_mono: "a \<le> b \<Longrightarrow> pow2 a \<le> pow2 b"
  by (simp add: pow2_def)

lemma pow2_strict_mono: "a < b \<Longrightarrow> pow2 a < pow2 b"
  by (simp add: pow2_def)

lemma pow2_less_iff: "pow2 a < pow2 b \<longleftrightarrow> a < b"
  by (simp add: pow2_def)

lemma pow2_le_iff: "pow2 a \<le> pow2 b \<longleftrightarrow> a \<le> b"
  by (simp add: pow2_def)

lemma pow2_diff_nat: "a \<le> b \<Longrightarrow> pow2 b / pow2 a = 2 ^ nat (b - a)"
proof -
  assume "a \<le> b"
  then have "b = a + int (nat (b - a))" by simp
  then have "pow2 b = pow2 a * 2 ^ nat (b - a)" by (metis pow2_add pow2_nat)
  then show ?thesis using pow2_pos[of a] by simp
qed

lemma pow2_shift53: "pow2 (k + 1) = pow2 (k - 52) * 2 ^ 53"
proof -
  have "k + 1 = (k - 52) + 53" by linarith
  then have "pow2 (k + 1) = pow2 ((k - 52) + 53)" by (rule arg_cong)
  also have "\<dots> = pow2 (k - 52) * pow2 53" by (rule pow2_add)
  also have "pow2 53 = 2 ^ 53" using pow2_nat[of 53] by simp
  finally show ?thesis .
qed

lemma rne_close: "\<bar>real_of_int (rne t) - t\<bar> \<le> 1 / 2"
proof -
  have "real_of_int \<lfloor>t\<rfloor> \<le> t" and "t < real_of_int \<lfloor>t\<rfloor> + 1" by linarith+
  then show ?thesis by (auto simp: rne_def Let_def abs_le_iff)
qed

lemma rne_int: "rne (real_of_int n) = n"
  by (simp add: rne_def)

lemma rne_ge_int: "real_of_int n \<le> t \<Longrightarrow> n \<le> rne t"
  using rne_close[of t] by linarith

lemma rne_le_int: "t \<le> real_of_int n \<Longrightarrow> rne t \<le> n"
  using rne_close[of t] by linarith

lemma floor_log2: "0 < x \<Longrightarrow> pow2 k \<le> x \<Longrightarrow> x < pow2 (k + 1) \<Longrightarrow> \<lfloor>log 2 x\<rfloor> = k"
  using floor_log_eq_powr_iff[of x 2 k] by (simp add: pow2_def)

lemma log2_bounds:
  assumes "x \<noteq> 0"
  shows "pow2 \<lfloor>log 2 \<bar>x\<bar>\<rfloor> \<le> \<bar>x\<bar>" and "\<bar>x\<bar> < pow2 (\<lfloor>log 2 \<bar>x\<bar>\<rfloor> + 1)"
  using assms floor_log_eq_powr_iff[of "\<bar>x\<bar>" 2 "\<lfloor>log 2 \<bar>x\<bar>\<rfloor>"] by (simp_all add: pow2_def)

text \<open>The scaled value \<open>x / ulp\<close> lies below \<open>2^53\<close> in magnitude.\<close>

lemma scaled_below:
  assumes "x \<noteq> 0"
  shows "\<bar>x / pow2 (ulp_exponent x)\<bar> < 2 ^ 53"
proof -
  let ?k = "\<lfloor>log 2 \<bar>x\<bar>\<rfloor>"
  have "?k - 52 \<le> ulp_exponent x" by (simp add: ulp_exponent_def)
  then have "pow2 (?k - 52) \<le> pow2 (ulp_exponent x)" by (rule pow2_mono)
  moreover have "\<bar>x\<bar> < pow2 (?k + 1)" using assms by (rule log2_bounds)
  moreover have "pow2 (?k + 1) = pow2 (?k - 52) * 2 ^ 53"
  proof -
    have "?k + 1 = (?k - 52) + 53" by linarith
    then have "pow2 (?k + 1) = pow2 ((?k - 52) + 53)" by (rule arg_cong)
    also have "\<dots> = pow2 (?k - 52) * pow2 53" by (rule pow2_add)
    also have "pow2 53 = 2 ^ 53" using pow2_nat[of 53] by simp
    finally show ?thesis .
  qed
  ultimately have "\<bar>x\<bar> < pow2 (ulp_exponent x) * 2 ^ 53"
    by (smt (verit) mult_right_mono zero_le_numeral zero_le_power)
  then show ?thesis using pow2_pos[of "ulp_exponent x"] by (simp add: field_simps)
qed

text \<open>A double is left as it is.\<close>

lemma fl_exact:
  assumes "x = real_of_int m * pow2 e" and "\<bar>m\<bar> < 2 ^ 53" and "- 1074 \<le> e" and "e \<le> 971"
  shows "fl x = Num x"
proof (cases "x = 0")
  case True
  then show ?thesis by (simp add: fl_def)
next
  case False
  define k where "k = \<lfloor>log 2 \<bar>x\<bar>\<rfloor>"
  define ue where "ue = ulp_exponent x"
  have m: "\<bar>real_of_int m\<bar> < 2 ^ 53"
    using assms(2) of_int_less_iff[of "\<bar>m\<bar>" "2 ^ 53", where ?'a = real] by simp
  have "\<bar>x\<bar> = \<bar>real_of_int m\<bar> * pow2 e" using assms(1) pow2_pos[of e] by (simp add: abs_mult)
  also have "\<dots> < 2 ^ 53 * pow2 e" using m pow2_pos[of e] by simp
  also have "\<dots> = pow2 (e + 53)" using pow2_add[of e 53] pow2_nat[of 53] by simp
  finally have up: "\<bar>x\<bar> < pow2 (e + 53)" .
  have "pow2 k \<le> \<bar>x\<bar>" unfolding k_def using False by (rule log2_bounds)
  then have "pow2 k < pow2 (e + 53)" using up by linarith
  then have "k < e + 53" by (simp only: pow2_less_iff)
  then have ue: "ue \<le> e" using assms(3) by (simp add: ue_def ulp_exponent_def k_def)
  then have q: "pow2 e / pow2 ue = 2 ^ nat (e - ue)" by (rule pow2_diff_nat)
  have "x / pow2 ue = real_of_int m * (pow2 e / pow2 ue)" by (simp add: assms(1))
  also have "\<dots> = real_of_int (m * 2 ^ nat (e - ue))" by (simp only: q) simp
  finally have sc: "x / pow2 ue = real_of_int (m * 2 ^ nat (e - ue))" .
  then have "rne (x / pow2 ue) = m * 2 ^ nat (e - ue)" by (simp only: rne_int)
  then have "real_of_int (rne (x / pow2 ue)) = x / pow2 ue" using sc by simp
  then have y: "real_of_int (rne (x / pow2 ue)) * pow2 ue = x"
    using pow2_pos[of ue] by simp
  have "pow2 (e + 53) \<le> pow2 1024" using assms(4) by (intro pow2_mono) simp
  then have "\<bar>x\<bar> < 2 ^ 1024" using up pow2_nat[of 1024] by simp
  then show ?thesis using False y by (simp add: fl_def Let_def flip: ue_def)
qed

lemma is_double_fl: "is_double x \<Longrightarrow> fl x = Num x"
  unfolding is_double_def using fl_exact by blast

lemma is_double_int:
  assumes "\<bar>n\<bar> \<le> 2 ^ 53"
  shows "is_double (real_of_int n)"
proof (cases "\<bar>n\<bar> < 2 ^ 53")
  case True
  have "real_of_int n = real_of_int n * pow2 0" by (simp add: pow2_def)
  then show ?thesis unfolding is_double_def using True by fastforce
next
  case False
  then have "n = 2 ^ 53 \<or> n = - (2 ^ 53)" using assms by linarith
  then have "real_of_int n = real_of_int (n div 2) * pow2 1 \<and> \<bar>n div 2\<bar> < 2 ^ 53"
    by (auto simp: pow2_def)
  then show ?thesis unfolding is_double_def by fastforce
qed

lemma fl_int: "\<bar>n\<bar> \<le> 2 ^ 53 \<Longrightarrow> fl (real_of_int n) = Num (real_of_int n)"
  by (simp add: is_double_int is_double_fl)

lemma is_double_scale:
  assumes "\<bar>n\<bar> < 2 ^ 53" and "- 1074 \<le> e" and "e \<le> 971"
  shows "is_double (real_of_int n * pow2 e)"
  unfolding is_double_def using assms by blast

lemma is_double_int_div_pow2:
  assumes "\<bar>n\<bar> < 2 ^ 53" and "k \<le> 1074"
  shows "is_double (real_of_int n / 2 ^ k)"
proof -
  have "real_of_int n / 2 ^ k = real_of_int n * pow2 (- int k)"
    by (simp add: pow2_neg pow2_nat)
  moreover have "- 1074 \<le> - int k" "- int k \<le> 971" using assms(2) by simp_all
  ultimately show ?thesis using is_double_scale[OF assms(1)] by metis
qed

lemma fl_numeral: "(numeral w :: int) \<le> 2 ^ 53 \<Longrightarrow> fl (numeral w) = Num (numeral w)"
  using fl_int[of "numeral w"] by simp

lemma fl_neg_numeral: "(numeral w :: int) \<le> 2 ^ 53 \<Longrightarrow> fl (- numeral w) = Num (- numeral w)"
  using fl_int[of "- numeral w"] by simp

lemma fl_zero: "fl 0 = Num 0"
  by (simp add: fl_def)

lemma fl_one: "fl 1 = Num 1"
  using fl_int[of 1] by simp

lemma fl_neg_one: "fl (- 1) = Num (- 1)"
  using fl_int[of "- 1"] by simp

lemma fl_half: "fl (1 / 2) = Num (1 / 2)"
  using is_double_fl[OF is_double_int_div_pow2[of 1 1]] by simp

text \<open>
  Rounding respects bounds on a grid at least as coarse as the one of the rounded
  value: between two multiples of \<open>2^-j\<close> the rounded value stays between them.
\<close>

lemma fl_between_dyadic:
  assumes lo: "real_of_int a / 2 ^ j \<le> x" and hi: "x \<le> real_of_int b / 2 ^ j"
    and small: "\<bar>x\<bar> < pow2 (53 - int j)" and j: "j \<le> 1074"
    and ab: "\<bar>a\<bar> \<le> 2 ^ 53" "\<bar>b\<bar> \<le> 2 ^ 53"
  shows "\<exists>y. fl x = Num y \<and> real_of_int a / 2 ^ j \<le> y \<and> y \<le> real_of_int b / 2 ^ j"
proof (cases "x = 0")
  case True
  then show ?thesis using lo hi by (simp add: fl_def)
next
  case False
  define ue where "ue = ulp_exponent x"
  define k where "k = \<lfloor>log 2 \<bar>x\<bar>\<rfloor>"
  define M :: int where "M = 2 ^ nat (- int j - ue)"
  define y where "y = real_of_int (rne (x / pow2 ue)) * pow2 ue"
  have "pow2 k \<le> \<bar>x\<bar>" unfolding k_def using False by (rule log2_bounds)
  then have "pow2 k < pow2 (53 - int j)" using small by linarith
  then have "k < 53 - int j" by (simp only: pow2_less_iff)
  then have ue: "ue \<le> - int j" using j by (simp add: ue_def ulp_exponent_def k_def)
  then have "pow2 (- int j) / pow2 ue = 2 ^ nat (- int j - ue)" by (rule pow2_diff_nat)
  then have q: "1 / 2 ^ j = real_of_int M * pow2 ue"
    using pow2_pos[of ue] by (simp add: M_def pow2_neg pow2_nat field_simps)
  have g: "real_of_int c / 2 ^ j = real_of_int (c * M) * pow2 ue" for c
  proof -
    have "real_of_int c / 2 ^ j = real_of_int c * (1 / 2 ^ j)" by simp
    also have "\<dots> = real_of_int c * (real_of_int M * pow2 ue)" by (simp only: q)
    finally show ?thesis by simp
  qed
  have "real_of_int (a * M) * pow2 ue \<le> x" using lo g[of a] by simp
  then have "real_of_int (a * M) \<le> x / pow2 ue"
    using pow2_pos[of ue] by (simp add: field_simps)
  then have "a * M \<le> rne (x / pow2 ue)" by (rule rne_ge_int)
  then have "real_of_int (a * M) \<le> real_of_int (rne (x / pow2 ue))" by (simp only: of_int_le_iff)
  then have "real_of_int (a * M) * pow2 ue \<le> y"
    unfolding y_def by (rule mult_right_mono) (simp add: less_imp_le pow2_pos)
  then have ylo: "real_of_int a / 2 ^ j \<le> y" using g[of a] by simp
  have "x \<le> real_of_int (b * M) * pow2 ue" using hi g[of b] by simp
  then have "x / pow2 ue \<le> real_of_int (b * M)"
    using pow2_pos[of ue] by (simp add: field_simps)
  then have "rne (x / pow2 ue) \<le> b * M" by (rule rne_le_int)
  then have "real_of_int (rne (x / pow2 ue)) \<le> real_of_int (b * M)" by (simp only: of_int_le_iff)
  then have "y \<le> real_of_int (b * M) * pow2 ue"
    unfolding y_def by (rule mult_right_mono) (simp add: less_imp_le pow2_pos)
  then have yhi: "y \<le> real_of_int b / 2 ^ j" using g[of b] by simp
  have "\<bar>real_of_int c / 2 ^ j\<bar> \<le> 2 ^ 53" if "\<bar>c\<bar> \<le> 2 ^ 53" for c :: int
  proof -
    have "\<bar>real_of_int c\<bar> \<le> 2 ^ 53"
      using that of_int_le_iff[of "\<bar>c\<bar>" "2 ^ 53", where ?'a = real] by simp
    moreover have "\<bar>real_of_int c / 2 ^ j\<bar> \<le> \<bar>real_of_int c\<bar> / 1"
      unfolding abs_divide by (intro divide_left_mono) simp_all
    ultimately show ?thesis by simp
  qed
  then have "\<bar>real_of_int a / 2 ^ j\<bar> \<le> 2 ^ 53" and "\<bar>real_of_int b / 2 ^ j\<bar> \<le> 2 ^ 53"
    using ab by blast+
  then have "\<bar>y\<bar> \<le> 2 ^ 53" using ylo yhi by linarith
  moreover have "(2::real) ^ 53 < 2 ^ 1024" by simp
  ultimately have "\<not> 2 ^ 1024 \<le> \<bar>y\<bar>" by linarith
  then have "fl x = Num y" using False by (simp add: fl_def Let_def y_def ue_def)
  then show ?thesis using ylo yhi by blast
qed

text \<open>The rounded value is a double.\<close>

lemma fl_is_double:
  assumes "fl x = Num y"
  shows "is_double y"
proof (cases "x = 0")
  case True
  then have "y = 0" using assms by (simp add: fl_def)
  then show ?thesis using is_double_int[of 0] by simp
next
  case False
  define ue where "ue = ulp_exponent x"
  define r where "r = rne (x / pow2 ue)"
  have fin: "\<not> 2 ^ 1024 \<le> \<bar>real_of_int r * pow2 ue\<bar>" and y: "y = real_of_int r * pow2 ue"
    using assms False by (auto simp: fl_def Let_def r_def ue_def split: if_splits)
  have lo: "- 1074 \<le> ue" by (simp add: ue_def ulp_exponent_def)
  have "\<bar>x / pow2 ue\<bar> < 2 ^ 53" unfolding ue_def using False by (rule scaled_below)
  then have "- (2 ^ 53) \<le> x / pow2 ue" and "x / pow2 ue \<le> 2 ^ 53" by linarith+
  then have b1: "real_of_int (- (2 ^ 53)) \<le> x / pow2 ue" and b2: "x / pow2 ue \<le> real_of_int (2 ^ 53)"
    by simp_all
  have "- (2 ^ 53) \<le> r" unfolding r_def using b1 by (rule rne_ge_int)
  moreover have "r \<le> 2 ^ 53" unfolding r_def using b2 by (rule rne_le_int)
  ultimately have "- (2 ^ 53) \<le> r" and "r \<le> 2 ^ 53" by simp_all
  then have rb: "\<bar>r\<bar> \<le> 2 ^ 53" by linarith
  show ?thesis
  proof (cases "r = 0")
    case True
    then show ?thesis using y is_double_int[of 0] by simp
  next
    case False
    then have "1 \<le> \<bar>real_of_int r\<bar>" by (simp flip: of_int_abs)
    then have "pow2 ue \<le> \<bar>real_of_int r\<bar> * pow2 ue"
      using pow2_pos[of ue] by (simp add: mult_le_cancel_right1)
    also have "\<dots> = \<bar>real_of_int r * pow2 ue\<bar>" using pow2_pos[of ue] by (simp add: abs_mult)
    also have "\<dots> < 2 ^ 1024" using fin by simp
    finally have "pow2 ue < pow2 1024" using pow2_nat[of 1024] by simp
    then have up: "ue < 1024" by (simp only: pow2_less_iff)
    show ?thesis
    proof (cases "\<bar>r\<bar> < 2 ^ 53")
      case True
      show ?thesis
      proof (cases "ue \<le> 971")
        case True
        then show ?thesis using y \<open>\<bar>r\<bar> < 2 ^ 53\<close> lo unfolding is_double_def by blast
      next
        case False
        define d where "d = nat (ue - 971)"
        have d: "ue = 971 + int d" "d \<le> 52" using False up by (simp_all add: d_def)
        have "\<bar>real_of_int r\<bar> * pow2 ue < 2 ^ 1024"
          using fin pow2_pos[of ue] by (simp add: abs_mult)
        moreover have "pow2 ue = 2 ^ d * pow2 971" using d(1) pow2_add[of 971 "int d"] pow2_nat[of d] by simp
        moreover have "(2::real) ^ 1024 = 2 ^ 53 * pow2 971" using pow2_nat[of 971] by simp
        ultimately have "\<bar>real_of_int r\<bar> * 2 ^ d * pow2 971 < 2 ^ 53 * pow2 971" by simp
        then have "\<bar>real_of_int r\<bar> * 2 ^ d < 2 ^ 53" using pow2_pos[of 971] by simp
        then have "real_of_int \<bar>r * 2 ^ d\<bar> < real_of_int (2 ^ 53)" by (simp add: abs_mult)
        then have "\<bar>r * 2 ^ d\<bar> < 2 ^ 53" by (simp only: of_int_less_iff)
        moreover have "y = real_of_int (r * 2 ^ d) * pow2 971"
          using y \<open>pow2 ue = 2 ^ d * pow2 971\<close> by simp
        ultimately show ?thesis unfolding is_double_def by (intro exI[of _ "r * 2 ^ d"] exI[of _ 971]) simp
      qed
    next
      case False
      then have "r = 2 ^ 53 \<or> r = - (2 ^ 53)" using rb by linarith
      then have h: "real_of_int r = real_of_int (r div 2) * 2" "\<bar>r div 2\<bar> < 2 ^ 53" "\<bar>real_of_int r\<bar> = 2 ^ 53"
        by auto
      have "2 ^ 53 * pow2 ue < 2 ^ 1024" using fin h(3) pow2_pos[of ue] by (simp add: abs_mult)
      moreover have "(2::real) ^ 1024 = 2 ^ 53 * pow2 971" using pow2_nat[of 971] by simp
      ultimately have "pow2 ue < pow2 971" by simp
      then have "ue < 971" by (simp only: pow2_less_iff)
      moreover have "y = real_of_int (r div 2) * pow2 (ue + 1)"
        using y h(1) pow2_add[of ue 1] by (simp add: pow2_def)
      ultimately show ?thesis unfolding is_double_def using h(2) lo
        by (intro exI[of _ "r div 2"] exI[of _ "ue + 1"]) simp
    qed
  qed
qed

lemma fl_idem: "fl x = Num y \<Longrightarrow> fl y = Num y"
  by (simp add: fl_is_double is_double_fl)

text \<open>
  The floor of the rounded quotient of two integers below \<open>2^53\<close> in magnitude is the
  floor of the exact quotient: the quotient is at least \<open>1/|b|\<close> below the next integer,
  which is more than half a unit in the last place.
\<close>

lemma floor_of_rounded_quotient:
  fixes a b :: int
  assumes a: "\<bar>a\<bar> < 2 ^ 53" and b: "\<bar>b\<bar> < 2 ^ 53" and nz: "b \<noteq> 0"
  shows "Math_floor (js_div (Num (real_of_int a)) (Num (real_of_int b))) = Num (real_of_int (a div b))"
proof (cases "b dvd a")
  case True
  then have "real_of_int a / real_of_int b = real_of_int (a div b)" by (simp add: real_of_int_div)
  moreover have "\<bar>a div b\<bar> \<le> \<bar>a\<bar>"
  proof -
    from True obtain c where c: "a = b * c" by (rule dvdE)
    then have "a div b = c" using nz by simp
    moreover have "1 \<le> \<bar>b\<bar>" using nz by linarith
    then have "\<bar>c\<bar> \<le> \<bar>b\<bar> * \<bar>c\<bar>" by (simp add: mult_le_cancel_right1)
    ultimately show ?thesis using c by (simp add: abs_mult)
  qed
  ultimately show ?thesis using a nz by (simp add: fl_int Math_floor_def)
next
  case False
  define x where "x = real_of_int a / real_of_int b"
  define q where "q = a div b"
  define ue where "ue = ulp_exponent x"
  define k where "k = \<lfloor>log 2 \<bar>x\<bar>\<rfloor>"
  define M :: int where "M = 2 ^ nat (- ue)"
  define t where "t = x / pow2 ue"
  define y where "y = real_of_int (rne t) * pow2 ue"
  have a0: "a \<noteq> 0" using False by auto
  have x0: "x \<noteq> 0" using a0 nz by (simp add: x_def)
  have bpos: "0 < \<bar>real_of_int b\<bar>" using nz by simp
  have b1: "1 \<le> \<bar>real_of_int b\<bar>" using nz by (simp flip: of_int_abs)
  have ar: "\<bar>real_of_int a\<bar> < 2 ^ 53"
    using a of_int_less_iff[of "\<bar>a\<bar>" "2 ^ 53", where ?'a = real] by simp
  have br: "\<bar>real_of_int b\<bar> < 2 ^ 53"
    using b of_int_less_iff[of "\<bar>b\<bar>" "2 ^ 53", where ?'a = real] by simp
  have xb: "\<bar>x\<bar> * \<bar>real_of_int b\<bar> = \<bar>real_of_int a\<bar>"
    using nz by (simp add: x_def abs_divide)
  have fq: "\<lfloor>x\<rfloor> = q" by (simp add: x_def q_def floor_divide_of_int_eq)
  have qle: "real_of_int q \<le> x" and xlt: "x < real_of_int q + 1"
    using fq by linarith+
  text \<open>The distance to the next integer.\<close>
  have "(q + 1) * b \<noteq> a" using False by auto
  then have "1 \<le> \<bar>(q + 1) * b - a\<bar>" by linarith
  then have "real_of_int 1 \<le> real_of_int \<bar>(q + 1) * b - a\<bar>" by (simp only: of_int_le_iff)
  then have "1 \<le> \<bar>real_of_int ((q + 1) * b - a)\<bar>" by simp
  moreover have "real_of_int ((q + 1) * b - a) = (real_of_int q + 1 - x) * real_of_int b"
    using nz by (simp add: x_def field_simps)
  ultimately have "1 \<le> (real_of_int q + 1 - x) * \<bar>real_of_int b\<bar>"
    using xlt by (simp add: abs_mult)
  then have gap: "1 / \<bar>real_of_int b\<bar> \<le> real_of_int q + 1 - x"
    using bpos by (simp add: field_simps)
  text \<open>The unit in the last place is below \<open>2 / |b|\<close>.\<close>
  have "pow2 k \<le> \<bar>x\<bar>" unfolding k_def using x0 by (rule log2_bounds)
  then have "pow2 k * \<bar>real_of_int b\<bar> \<le> \<bar>x\<bar> * \<bar>real_of_int b\<bar>"
    by (rule mult_right_mono) simp
  then have "pow2 k * \<bar>real_of_int b\<bar> < 2 ^ 53" using xb ar by linarith
  moreover have "pow2 k = pow2 (k - 52) * 2 ^ 52"
    using pow2_add[of "k - 52" 52] pow2_nat[of 52] by simp
  ultimately have n1: "pow2 (k - 52) * \<bar>real_of_int b\<bar> < 2" by (simp add: mult.commute)
  have "pow2 (- 1074) \<le> pow2 (- 53)" by (rule pow2_mono) simp
  moreover have "pow2 (- 53) = 1 / 2 ^ 53" using pow2_neg[of 53] pow2_nat[of 53] by simp
  ultimately have "pow2 (- 1074) * \<bar>real_of_int b\<bar> \<le> (1 / 2 ^ 53) * \<bar>real_of_int b\<bar>"
    by (intro mult_right_mono) simp_all
  also have "\<dots> < 1" using br by simp
  finally have n2: "pow2 (- 1074) * \<bar>real_of_int b\<bar> < 2" by simp
  have "ue = k - 52 \<or> ue = - 1074" by (auto simp: ue_def ulp_exponent_def k_def max_def)
  then have small: "pow2 ue * \<bar>real_of_int b\<bar> < 2" using n1 n2 by auto
  then have half: "pow2 ue / 2 < 1 / \<bar>real_of_int b\<bar>"
    using bpos by (simp add: field_simps)
  text \<open>The integers are multiples of the unit.\<close>
  have "pow2 k \<le> \<bar>x\<bar>" unfolding k_def using x0 by (rule log2_bounds)
  moreover have "\<bar>x\<bar> \<le> \<bar>real_of_int a\<bar>"
  proof -
    have "\<bar>x\<bar> * 1 \<le> \<bar>x\<bar> * \<bar>real_of_int b\<bar>" using b1 by (intro mult_left_mono) simp_all
    then show ?thesis using xb by simp
  qed
  ultimately have "pow2 k < pow2 53" using ar pow2_nat[of 53] by simp
  then have "k < 53" by (simp only: pow2_less_iff)
  then have ue0: "ue \<le> 0" by (simp add: ue_def ulp_exponent_def k_def)
  then have "pow2 0 / pow2 ue = 2 ^ nat (0 - ue)" by (rule pow2_diff_nat)
  then have Mu: "real_of_int M * pow2 ue = 1"
    using pow2_pos[of ue] by (simp add: M_def pow2_def field_simps)
  have grid: "real_of_int (c * M) = real_of_int c / pow2 ue" for c
    using Mu pow2_pos[of ue] by (simp add: field_simps)
  have "real_of_int (q * M) \<le> t"
    unfolding t_def grid using qle pow2_pos[of ue] by (simp add: divide_right_mono)
  then have lo: "q * M \<le> rne t" by (rule rne_ge_int)
  have "pow2 ue / 2 < real_of_int q + 1 - x" using half gap by linarith
  then have "x + pow2 ue / 2 < real_of_int (q + 1)" by simp
  then have "(x + pow2 ue / 2) / pow2 ue < real_of_int (q + 1) / pow2 ue"
    using pow2_pos[of ue] by (simp add: divide_strict_right_mono)
  then have "t + 1 / 2 < real_of_int ((q + 1) * M)"
    unfolding t_def grid using pow2_pos[of ue] by (simp add: add_divide_distrib)
  then have "real_of_int (rne t) < real_of_int ((q + 1) * M)"
    using rne_close[of t] by linarith
  then have hi: "rne t < (q + 1) * M" by (simp only: of_int_less_iff)
  have "real_of_int (q * M) \<le> real_of_int (rne t)" using lo by (simp only: of_int_le_iff)
  then have "real_of_int (q * M) * pow2 ue \<le> y"
    unfolding y_def by (rule mult_right_mono) (simp add: less_imp_le pow2_pos)
  then have ylo: "real_of_int q \<le> y" using grid[of q] pow2_pos[of ue] by simp
  have "real_of_int (rne t) < real_of_int ((q + 1) * M)" using hi by (simp only: of_int_less_iff)
  then have "y < real_of_int ((q + 1) * M) * pow2 ue"
    unfolding y_def using pow2_pos[of ue] by (simp only: mult_less_cancel_right_pos)
  then have yhi: "y < real_of_int q + 1" using grid[of "q + 1"] pow2_pos[of ue] by simp
  have "\<bar>x\<bar> < 2 ^ 53" using \<open>\<bar>x\<bar> \<le> \<bar>real_of_int a\<bar>\<close> ar by linarith
  then have "\<bar>y\<bar> \<le> 2 ^ 53 + 1" using qle xlt ylo yhi by linarith
  moreover have "(2::real) ^ 53 + 1 < 2 ^ 1024" by simp
  ultimately have "\<not> 2 ^ 1024 \<le> \<bar>y\<bar>" by linarith
  then have "fl x = Num y" using x0 by (simp add: fl_def Let_def y_def t_def ue_def)
  moreover have "\<lfloor>y\<rfloor> = q" using ylo yhi by linarith
  ultimately show ?thesis using nz by (simp add: Math_floor_def x_def q_def)
qed

text \<open>The rounding of a value whose binary exponent is known.\<close>

lemma fl_eval:
  assumes lo: "pow2 k \<le> \<bar>x\<bar>" and hi: "\<bar>x\<bar> < pow2 (k + 1)" and k: "- 1022 \<le> k" "k \<le> 1022"
  shows "fl x = Num (real_of_int (rne (x / pow2 (k - 52))) * pow2 (k - 52))"
proof -
  have x0: "x \<noteq> 0" using lo pow2_pos[of k] by auto
  then have "0 < \<bar>x\<bar>" by simp
  then have "\<lfloor>log 2 \<bar>x\<bar>\<rfloor> = k" using lo hi by (rule floor_log2)
  then have ue: "ulp_exponent x = k - 52" using k by (simp add: ulp_exponent_def)
  define r where "r = rne (x / pow2 (k - 52))"
  have "\<bar>x / pow2 (k - 52)\<bar> < 2 ^ 53" using scaled_below[OF x0] by (simp only: ue)
  then have "- (2 ^ 53) \<le> x / pow2 (k - 52)" and "x / pow2 (k - 52) \<le> 2 ^ 53" by linarith+
  then have b1: "real_of_int (- (2 ^ 53)) \<le> x / pow2 (k - 52)"
    and b2: "x / pow2 (k - 52) \<le> real_of_int (2 ^ 53)" by simp_all
  have "- (2 ^ 53) \<le> r" unfolding r_def using b1 by (rule rne_ge_int)
  moreover have "r \<le> 2 ^ 53" unfolding r_def using b2 by (rule rne_le_int)
  ultimately have "\<bar>r\<bar> \<le> 2 ^ 53" by linarith
  then have "real_of_int \<bar>r\<bar> \<le> real_of_int (2 ^ 53)" by (simp only: of_int_le_iff)
  then have "\<bar>real_of_int r\<bar> \<le> 2 ^ 53" by simp
  then have "\<bar>real_of_int r\<bar> * pow2 (k - 52) \<le> 2 ^ 53 * pow2 (k - 52)"
    by (rule mult_right_mono) (simp add: less_imp_le pow2_pos)
  also have "\<dots> = pow2 (k + 1)" using pow2_shift53[of k] by (simp add: mult.commute)
  also have "\<dots> \<le> pow2 1023" using k by (intro pow2_mono) simp
  also have "\<dots> < pow2 1024" by (simp add: pow2_less_iff)
  finally have "\<bar>real_of_int r * pow2 (k - 52)\<bar> < 2 ^ 1024"
    using pow2_nat[of 1024] pow2_pos[of "k - 52"] by (simp add: abs_mult)
  then show ?thesis using x0 by (simp add: fl_def Let_def ue r_def)
qed

lemma quotient_rounds_up: "js_div (Num 18014398509481982) (Num 3) = Num 6004799503160661"
proof -
  have "fl (18014398509481982 / 3) =
      Num (real_of_int (rne ((18014398509481982 / 3) / pow2 (52 - 52))) * pow2 (52 - 52))"
    using pow2_nat[of 52] pow2_nat[of 53] by (intro fl_eval) simp_all
  moreover have "rne (18014398509481982 / 3) = 6004799503160661"
    by (simp add: rne_def Let_def)
  ultimately show ?thesis by (simp add: pow2_def)
qed

lemma parseInt_rounds_to_even: "parseInt 9007199254740993 = Num 9007199254740992"
proof -
  have "fl 9007199254740993 =
      Num (real_of_int (rne (9007199254740993 / pow2 (53 - 52))) * pow2 (53 - 52))"
    using pow2_nat[of 53] pow2_nat[of 54] by (intro fl_eval) simp_all
  moreover have "pow2 (53 - 52) = 2" using pow2_nat[of 1] by simp
  moreover have "rne (9007199254740993 / 2) = 4503599627370496"
    by (simp add: rne_def Let_def)
  ultimately show ?thesis by (simp add: parseInt_def)
qed

lemma five_thirds_rounded: "js_div (Num 5) (Num 3) = Num (7505999378950827 / 2 ^ 52)"
proof -
  have e: "fl (5 / 3) = Num (real_of_int (rne ((5 / 3) / pow2 (0 - 52))) * pow2 (0 - 52))"
    using pow2_nat[of 0] pow2_nat[of 1] by (intro fl_eval) simp_all
  have p: "pow2 (0 - 52) = 1 / 2 ^ 52" using pow2_neg[of 52] pow2_nat[of 52] by simp
  have r: "rne ((5 / 3) / (1 / 2 ^ 52)) = 7505999378950827"
    by (simp add: rne_def Let_def)
  have "fl (5 / 3) = Num (7505999378950827 / 2 ^ 52)"
    using e unfolding p r by simp
  then show ?thesis by simp
qed

section \<open>Properties of the fixed-point codec\<close>

lemma fl_div_pow2:
  "\<bar>n\<bar> < 2 ^ 53 \<Longrightarrow> k \<le> 1074 \<Longrightarrow> fl (real_of_int n / 2 ^ k) = Num (real_of_int n / 2 ^ k)"
  by (simp add: is_double_int_div_pow2 is_double_fl)

lemma clamp_Num: "clamp (Num v) (Num lo) (Num hi) = Num (max lo (min hi v))"
  by (auto simp: clamp_def Math_max_def Math_min_def max_def min_def)

lemma Math_round_Num: "Math_round (Num v) = Num (real_of_int \<lfloor>v + 1 / 2\<rfloor>)"
  by (simp add: Math_round_def)

lemma is_double_times_pow2:
  assumes d: "is_double v" and b: "\<bar>v * 2 ^ k\<bar> \<le> 2 ^ 31"
  shows "is_double (v * 2 ^ k)"
proof -
  from d obtain m e where v: "v = real_of_int m * pow2 e" and m: "\<bar>m\<bar> < 2 ^ 53"
    and e: "- 1074 \<le> e" "e \<le> 971"
    unfolding is_double_def by blast
  show ?thesis
  proof (cases "m = 0")
    case True
    then have "v * 2 ^ k = real_of_int 0" using v by simp
    then show ?thesis using is_double_int[of 0] by simp
  next
    case False
    have vk: "v * 2 ^ k = real_of_int m * pow2 (e + int k)"
      using v pow2_add[of e "int k"] pow2_nat[of k] by simp
    have "1 \<le> \<bar>m\<bar>" using False by linarith
    then have "real_of_int 1 \<le> real_of_int \<bar>m\<bar>" by (simp only: of_int_le_iff)
    then have "1 \<le> \<bar>real_of_int m\<bar>" by simp
    then have "1 * pow2 (e + int k) \<le> \<bar>real_of_int m\<bar> * pow2 (e + int k)"
      by (rule mult_right_mono) (simp add: less_imp_le pow2_pos)
    also have "\<dots> = \<bar>v * 2 ^ k\<bar>" using vk pow2_pos[of "e + int k"] by (simp add: abs_mult)
    also have "\<dots> \<le> 2 ^ 31" by (rule b)
    also have "(2::real) ^ 31 = pow2 31" using pow2_nat[of 31] by simp
    finally have "pow2 (e + int k) \<le> pow2 31" by simp
    then have "e + int k \<le> 31" by (simp only: pow2_le_iff)
    then have "e + int k \<le> 971" and "- 1074 \<le> e + int k" using e by linarith+
    then show ?thesis using vk m unfolding is_double_def by blast
  qed
qed

lemma encode_clamped_close:
  fixes p :: real
  assumes "\<bar>p\<bar> \<le> 2 ^ 31 - 1 / 2"
  defines "n \<equiv> max (- 2147483647) (min 2147483647 \<lfloor>p + 1 / 2\<rfloor>)"
  shows "\<bar>real_of_int n - p\<bar> \<le> 1 / 2" and "\<bar>n\<bar> < 2 ^ 53"
proof -
  define r where "r = \<lfloor>p + 1 / 2\<rfloor>"
  have a: "\<bar>p\<bar> \<le> 2147483647 + 1 / 2" using assms(1) by simp
  have r1: "real_of_int r \<le> p + 1 / 2" and r2: "p - 1 / 2 < real_of_int r"
    unfolding r_def by linarith+
  have r3: "r \<le> 2147483648" and r4: "- 2147483647 \<le> r"
    using a unfolding r_def by linarith+
  have e: "n = min 2147483647 r" using r4 by (simp add: n_def r_def)
  show "\<bar>real_of_int n - p\<bar> \<le> 1 / 2"
  proof (cases "r \<le> 2147483647")
    case True
    then have "n = r" using e by simp
    then show ?thesis using r1 r2 by linarith
  next
    case False
    then have "r = 2147483648" using r3 by linarith
    then have "n = 2147483647" using e by simp
    then show ?thesis using r1 a \<open>r = 2147483648\<close> by simp
  qed
  have "\<bar>n\<bar> \<le> 2147483647" using e r4 by linarith
  then show "\<bar>n\<bar> < 2 ^ 53" by simp
qed

text \<open>
  Claim C4, as stated, fails twice. Where the clamp cuts the encoding off: \<open>2^31\<close> at
  scale 1 is encoded as \<open>2^31 - 1\<close>, one away from it. And where the scale is not a power
  of two, inside the range: \<open>1.5\<close> at scale 3 is encoded as 5, and the quotient \<open>5 / 3\<close>
  is rounded upwards, to more than \<open>1/6\<close> above \<open>1.5\<close>.
\<close>

theorem roundtrip_unbounded_counterexample:
  "fxToFloat (floatToFx (Num 2147483648) (Num 1)) (Num 1) = Num 2147483647 \<and>
   \<not> \<bar>2147483647 - 2147483648\<bar> \<le> (1 / 2) / (1::real) \<and>
   fxToFloat (floatToFx (Num (3 / 2)) (Num 3)) (Num 3) = Num (7505999378950827 / 2 ^ 52) \<and>
   \<not> \<bar>7505999378950827 / 2 ^ 52 - 3 / 2\<bar> \<le> (1 / 2) / (3::real)"
proof -
  have "fl (3 / 2 * 3) = Num (9 / 2)" using fl_div_pow2[of 9 1] by simp
  then have "floatToFx (Num (3 / 2)) (Num 3) = Num 5"
    by (simp add: floatToFx_def MAX_FX_def js_neg_def Math_round_Num clamp_Num)
  then have a: "fxToFloat (floatToFx (Num (3 / 2)) (Num 3)) (Num 3) = Num (7505999378950827 / 2 ^ 52)"
    by (simp only: fxToFloat_def five_thirds_rounded)
  have "floatToFx (Num 2147483648) (Num 1) = Num 2147483647"
    by (simp add: floatToFx_def MAX_FX_def js_neg_def Math_round_Num clamp_Num fl_numeral)
  then have b: "fxToFloat (floatToFx (Num 2147483648) (Num 1)) (Num 1) = Num 2147483647"
    by (simp add: fxToFloat_def fl_numeral)
  show ?thesis using a b by simp
qed

text \<open>
  Claim C4, amended: for every double \<open>v\<close> and every scale \<open>s\<close> that is a power of two
  (as the default 65536 is) with \<open>|v * s| \<le> 2^31 - 1/2\<close>, so that neither the clamp to
  \<open>[-(2^31 - 1), 2^31 - 1]\<close> nor the rounding of the product and of the quotient moves
  the value, decoding the encoding of \<open>v\<close> gives a number within \<open>0.5 / s\<close> of \<open>v\<close>.
\<close>

theorem roundtrip_within_half_step:
  fixes v :: real and k :: nat
  assumes "is_double v" and "k \<le> 1023" and "\<bar>v * 2 ^ k\<bar> \<le> 2 ^ 31 - 1 / 2"
  shows "\<exists>r. fxToFloat (floatToFx (Num v) (Num (2 ^ k))) (Num (2 ^ k)) = Num r \<and>
             \<bar>r - v\<bar> \<le> (1 / 2) / 2 ^ k"
proof -
  define p where "p = v * 2 ^ k"
  define n where "n = max (- 2147483647) (min 2147483647 \<lfloor>p + 1 / 2\<rfloor>)"
  have pb: "\<bar>p\<bar> \<le> 2 ^ 31 - 1 / 2" using assms(3) by (simp add: p_def)
  then have "\<bar>v * 2 ^ k\<bar> \<le> 2 ^ 31" by (simp add: p_def)
  then have "is_double (v * 2 ^ k)" using assms(1) by (intro is_double_times_pow2)
  then have prod: "fl (v * 2 ^ k) = Num p" by (simp add: is_double_fl p_def)
  have close: "\<bar>real_of_int n - p\<bar> \<le> 1 / 2" and nb: "\<bar>n\<bar> < 2 ^ 53"
    unfolding n_def using pb by (rule encode_clamped_close)+
  have enc: "floatToFx (Num v) (Num (2 ^ k)) = Num (real_of_int n)"
    by (simp add: floatToFx_def prod MAX_FX_def js_neg_def Math_round_Num clamp_Num n_def
        of_int_max of_int_min)
  have "fl (real_of_int n / 2 ^ k) = Num (real_of_int n / 2 ^ k)"
    using nb assms(2) by (intro fl_div_pow2) simp_all
  then have dec: "fxToFloat (Num (real_of_int n)) (Num (2 ^ k)) = Num (real_of_int n / 2 ^ k)"
    by (simp add: fxToFloat_def)
  have "real_of_int n / 2 ^ k - v = (real_of_int n - p) / 2 ^ k" by (simp add: p_def field_simps)
  then have "\<bar>real_of_int n / 2 ^ k - v\<bar> = \<bar>real_of_int n - p\<bar> / 2 ^ k" by simp
  also have "\<dots> \<le> (1 / 2) / 2 ^ k" using close by (intro divide_right_mono) simp_all
  finally show ?thesis using enc dec by simp
qed

theorem roundtrip_within_half_step_witness:
  "is_double (10000001 / 2 ^ 23) \<and> (16::nat) \<le> 1023 \<and>
   \<bar>(10000001 / 2 ^ 23) * 2 ^ 16\<bar> \<le> (2::real) ^ 31 - 1 / 2 \<and>
   (\<exists>r. fxToFloat (floatToFx (Num (10000001 / 2 ^ 23)) (Num (2 ^ 16))) (Num (2 ^ 16)) = Num r \<and>
        \<bar>r - 10000001 / 2 ^ 23\<bar> \<le> (1 / 2) / 2 ^ 16)"
proof -
  have h1: "is_double (10000001 / 2 ^ 23)" using is_double_int_div_pow2[of 10000001 23] by simp
  have h2: "(16::nat) \<le> 1023" by simp
  have h3: "\<bar>(10000001 / 2 ^ 23) * 2 ^ 16\<bar> \<le> (2::real) ^ 31 - 1 / 2" by simp
  show ?thesis using h1 h2 h3 roundtrip_within_half_step[OF h1 h2 h3] by simp
qed

section \<open>Properties of the deterministic math reference\<close>

lemma js_le_Num: "js_le (Num a) (Num b) \<longleftrightarrow> a \<le> b"
  by (auto simp: js_le_def)

lemma js_gt_Num: "js_gt (Num a) (Num b) \<longleftrightarrow> b < a"
  by (simp add: js_gt_def)

lemma small_literal: "\<exists>c. literal (1 / 1000000) = Num c \<and> 0 \<le> c \<and> c \<le> 1"
proof -
  have "\<exists>y. fl (1 / 1000000) = Num y \<and> real_of_int 0 / 2 ^ 0 \<le> y \<and> y \<le> real_of_int 1 / 2 ^ 0"
    using pow2_nat[of 53] by (intro fl_between_dyadic) simp_all
  then show ?thesis by (simp add: literal_def)
qed

lemma floatToFx_minus16: "floatToFx (Num (- 16)) (Num 65536) = Num (- 1048576)"
  by (simp add: floatToFx_def MAX_FX_def js_neg_def Math_round_Num clamp_Num fl_neg_numeral)

lemma default_cpu_fields:
  "numRegs default_cpu = 4" "length (regs default_cpu) = 4" "neuralALU default_cpu = None"
  "neuralMath default_cpu = None" "dataStack default_cpu = []" "dataStackMax default_cpu = 256"
  "length (memory default_cpu) = 256" "callStack default_cpu = []" "pointer default_cpu = 0"
  "fxScale default_cpu = Num 65536" "instructions default_cpu = []"
  by (simp_all add: default_cpu_def new_PL0CPU_def numRegs_def)

text \<open>
  Claim C7: at scale 65536 and with no unary provider, \<open>FCOS\<close> of 0 is 65536 and \<open>FLN\<close>
  of 65536 is 0; for every fixed-point input that decodes to a number \<open>\<le> 0\<close>, \<open>FLN\<close> and
  \<open>FLOG10\<close> give the encoding of \<open>-16\<close>. The instruction stores the reference value
  in its register.
\<close>

theorem reference_math_scenario:
  "refMathFx FCOS (Num 0) (Num 65536) = Num 65536 \<and>
   refMathFx FLN (Num 65536) (Num 65536) = Num 0 \<and>
   (\<forall>xFx. js_le (fxToFloat xFx (Num 65536)) (Num 0) \<longrightarrow>
      refMathFx FLN xFx (Num 65536) = floatToFx (Num (- 16)) (Num 65536) \<and>
      refMathFx FLOG10 xFx (Num 65536) = floatToFx (Num (- 16)) (Num 65536) \<and>
      floatToFx (Num (- 16)) (Num 65536) = Num (- 1048576)) \<and>
   (\<forall>progs s op rX. neuralMath s = None \<and> rX < numRegs s \<longrightarrow>
      exec_instr progs s (Math op rX) =
        Inr (s\<lparr>regs := (regs s)[rX := refMathFx op (regs s ! rX) (fxScale s)],
               pointer := pointer s + 1\<rparr>))"
proof (intro conjI allI impI)
  show "refMathFx FCOS (Num 0) (Num 65536) = Num 65536"
    by (simp add: fxToFloat_def floatToFx_def clamp_Num Math_PI_def js_neg_def Math_cos_def
        Math_round_Num MAX_FX_def fl_zero fl_one fl_numeral)
  from small_literal obtain c where c: "literal (1 / 1000000) = Num c" "0 \<le> c" "c \<le> 1" by blast
  then show "refMathFx FLN (Num 65536) (Num 65536) = Num 0"
    by (simp add: fxToFloat_def floatToFx_def clamp_Num js_le_Num js_neg_def Math_log_def
        Math_round_Num MAX_FX_def fl_zero fl_one)
  show "floatToFx (Num (- 16)) (Num 65536) = Num (- 1048576)" by (rule floatToFx_minus16)
next
  fix xFx assume "js_le (fxToFloat xFx (Num 65536)) (Num 0)"
  then show "refMathFx FLN xFx (Num 65536) = floatToFx (Num (- 16)) (Num 65536)"
    and "refMathFx FLOG10 xFx (Num 65536) = floatToFx (Num (- 16)) (Num 65536)"
    by (simp_all add: Let_def)
next
  fix progs s op rX assume "neuralMath s = None \<and> rX < numRegs s"
  then show "exec_instr progs s (Math op rX) =
        Inr (s\<lparr>regs := (regs s)[rX := refMathFx op (regs s ! rX) (fxScale s)],
               pointer := pointer s + 1\<rparr>)"
    by (simp add: exec_math_def bind_e_def parseReg_def)
qed

theorem reference_math_scenario_witness:
  "js_le (fxToFloat (Num (- 3)) (Num 65536)) (Num 0) \<and>
   refMathFx FLN (Num (- 3)) (Num 65536) = Num (- 1048576) \<and>
   refMathFx FLOG10 (Num 0) (Num 65536) = Num (- 1048576) \<and>
   neuralMath default_cpu = None \<and> 0 < numRegs default_cpu \<and>
   (\<exists>s. exec_instr Map.empty default_cpu (Math FCOS 0) = Inr s \<and> regs s ! 0 = Num 65536)"
proof -
  have "fl (- 3 / 65536) = Num (- 3 / 65536)" using fl_div_pow2[of "- 3" 16] by simp
  then have h1: "js_le (fxToFloat (Num (- 3)) (Num 65536)) (Num 0)"
    by (simp add: fxToFloat_def js_le_Num)
  have h0: "js_le (fxToFloat (Num 0) (Num 65536)) (Num 0)"
    by (simp add: fxToFloat_def js_le_Num fl_zero)
  have h2: "neuralMath default_cpu = None \<and> 0 < numRegs default_cpu"
    by (simp add: default_cpu_fields)
  have r: "regs default_cpu ! 0 = Num 0" "fxScale default_cpu = Num 65536"
    "0 < length (regs default_cpu)"
    by (simp_all add: default_cpu_def new_PL0CPU_def)
  from reference_math_scenario have
    c: "refMathFx FCOS (Num 0) (Num 65536) = Num 65536"
    and l: "\<And>xFx. js_le (fxToFloat xFx (Num 65536)) (Num 0) \<Longrightarrow>
      refMathFx FLN xFx (Num 65536) = floatToFx (Num (- 16)) (Num 65536) \<and>
      refMathFx FLOG10 xFx (Num 65536) = floatToFx (Num (- 16)) (Num 65536) \<and>
      floatToFx (Num (- 16)) (Num 65536) = Num (- 1048576)"
    and e: "\<And>progs s op rX. neuralMath s = None \<and> rX < numRegs s \<Longrightarrow>
      exec_instr progs s (Math op rX) =
        Inr (s\<lparr>regs := (regs s)[rX := refMathFx op (regs s ! rX) (fxScale s)],
               pointer := pointer s + 1\<rparr>)"
    by blast+
  have "exec_instr Map.empty default_cpu (Math FCOS 0) =
      Inr (default_cpu\<lparr>regs := (regs default_cpu)[0 := Num 65536], pointer := pointer default_cpu + 1\<rparr>)"
    using e[OF h2, of Map.empty FCOS] r c by simp
  then have "\<exists>s. exec_instr Map.empty default_cpu (Math FCOS 0) = Inr s \<and> regs s ! 0 = Num 65536"
    using r(3) by simp
  then show ?thesis using h1 h2 l[OF h1] l[OF h0] by simp
qed

section \<open>Properties of the instruction dispatch\<close>

subsection \<open>Division\<close>

lemma is_double_2_54_minus_2: "is_double 18014398509481982"
proof -
  have "(18014398509481982::real) = real_of_int 9007199254740991 * pow2 1" by (simp add: pow2_def)
  then show ?thesis unfolding is_double_def by (intro exI[of _ 9007199254740991] exI[of _ 1]) simp
qed

text \<open>
  Claim C1, as stated, fails beyond the integers that the host's numbers hold exactly
  together with their quotients: \<open>2^54 - 2\<close> is a double, and its quotient by 3 is
  rounded upwards to an integer before the floor is taken, one above the floor of the
  exact quotient.
\<close>

theorem div_beyond_safe_range_counterexample:
  "is_double 18014398509481982 \<and>
   exec_instr Map.empty (default_cpu\<lparr>regs := [Num 18014398509481982, Num 3, Num 0, Num 0]\<rparr>)
     (Arith DIV 0 1) =
     Inr (default_cpu\<lparr>regs := [Num 6004799503160661, Num 3, Num 0, Num 0],
                      pointer := pointer default_cpu + 1\<rparr>) \<and>
   (18014398509481982 :: int) div 3 = 6004799503160660"
proof -
  have "native_arith DIV (Num 18014398509481982) (Num 3) = Num 6004799503160661"
    unfolding native_arith_def by (simp only: alu_op.case quotient_rounds_up) (simp add: Math_floor_def)
  then have "exec_instr Map.empty (default_cpu\<lparr>regs := [Num 18014398509481982, Num 3, Num 0, Num 0]\<rparr>)
     (Arith DIV 0 1) =
     Inr (default_cpu\<lparr>regs := [Num 6004799503160661, Num 3, Num 0, Num 0],
                      pointer := pointer default_cpu + 1\<rparr>)"
    by (simp add: exec_arith_def bind_e_def parseReg_def numRegs_def arith_body_def
        default_cpu_fields)
  then show ?thesis using is_double_2_54_minus_2 by simp
qed

text \<open>
  Claim C1, amended: with no binary provider, \<open>DIV rX, rY\<close> on registers holding integers
  \<open>a\<close> and \<open>b\<close> below \<open>2^53\<close> in magnitude, with \<open>b \<noteq> 0\<close>, leaves the floor of \<open>a / b\<close> in
  \<open>rX\<close> (\<open>div\<close> on \<^typ>\<open>int\<close> rounds towards minus infinity, so that \<open>-7 div 2 = -4\<close>), and
  with \<open>b = 0\<close> it is the fatal error of a division by zero, the machine left as it was.
\<close>

theorem div_without_provider_is_floor:
  assumes "neuralALU s = None" and "rX < numRegs s" and "rY < numRegs s"
    and "regs s ! rX = Num (real_of_int a)" and "regs s ! rY = Num (real_of_int b)"
    and "\<bar>a\<bar> < 2 ^ 53" and "\<bar>b\<bar> < 2 ^ 53"
  shows "exec_instr progs s (Arith DIV rX rY) =
          (if b = 0 then Inl (Division_by_zero, s)
           else Inr (s\<lparr>regs := (regs s)[rX := Num (real_of_int (a div b))],
                       pointer := pointer s + 1\<rparr>))"
proof (cases "b = 0")
  case True
  then show ?thesis using assms by (simp add: exec_arith_def bind_e_def parseReg_def)
next
  case False
  have "Math_floor (js_div (Num (real_of_int a)) (Num (real_of_int b))) = Num (real_of_int (a div b))"
    using assms(6,7) False by (rule floor_of_rounded_quotient)
  then have "native_arith DIV (Num (real_of_int a)) (Num (real_of_int b)) = Num (real_of_int (a div b))"
    unfolding native_arith_def by (simp only: alu_op.case)
  then show ?thesis using False assms(1-5)
    by (simp add: exec_arith_def bind_e_def parseReg_def arith_body_def)
qed

theorem div_without_provider_is_floor_witness:
  "neuralALU (default_cpu\<lparr>regs := [Num (- 7), Num 2, Num 0, Num 0]\<rparr>) = None \<and>
   0 < numRegs (default_cpu\<lparr>regs := [Num (- 7), Num 2, Num 0, Num 0]\<rparr>) \<and>
   1 < numRegs (default_cpu\<lparr>regs := [Num (- 7), Num 2, Num 0, Num 0]\<rparr>) \<and>
   2 < numRegs (default_cpu\<lparr>regs := [Num (- 7), Num 2, Num 0, Num 0]\<rparr>) \<and>
   \<bar>- 7 :: int\<bar> < 2 ^ 53 \<and> \<bar>2 :: int\<bar> < 2 ^ 53 \<and> \<bar>0 :: int\<bar> < 2 ^ 53 \<and>
   exec_instr Map.empty (default_cpu\<lparr>regs := [Num (- 7), Num 2, Num 0, Num 0]\<rparr>) (Arith DIV 0 1) =
     Inr (default_cpu\<lparr>regs := [Num (- 4), Num 2, Num 0, Num 0], pointer := pointer default_cpu + 1\<rparr>) \<and>
   exec_instr Map.empty (default_cpu\<lparr>regs := [Num (- 7), Num 2, Num 0, Num 0]\<rparr>) (Arith DIV 0 2) =
     Inl (Division_by_zero, default_cpu\<lparr>regs := [Num (- 7), Num 2, Num 0, Num 0]\<rparr>)"
proof -
  let ?s = "default_cpu\<lparr>regs := [Num (- 7), Num 2, Num 0, Num 0]\<rparr>"
  have h: "neuralALU ?s = None" "0 < numRegs ?s" "1 < numRegs ?s" "2 < numRegs ?s"
    by (simp_all add: default_cpu_fields numRegs_def)
  have v: "regs ?s ! 0 = Num (real_of_int (- 7))" "regs ?s ! 1 = Num (real_of_int 2)"
    "regs ?s ! 2 = Num (real_of_int 0)"
    by simp_all
  have m: "\<bar>- 7 :: int\<bar> < 2 ^ 53" "\<bar>2 :: int\<bar> < 2 ^ 53" "\<bar>0 :: int\<bar> < 2 ^ 53" by simp_all
  show ?thesis
    using h m
      div_without_provider_is_floor[OF h(1) h(2) h(3) v(1) v(2) m(1) m(2), of Map.empty]
      div_without_provider_is_floor[OF h(1) h(2) h(4) v(1) v(3) m(1) m(3), of Map.empty]
    by simp
qed



subsection \<open>Memory addressing\<close>

lemma trunc_quotient_nonneg:
  "0 \<le> a \<Longrightarrow> 0 < m \<Longrightarrow> trunc_real (real_of_int a / real_of_int m) = a div m"
  by (simp add: trunc_real_def floor_divide_of_int_eq)

lemma trunc_quotient_neg:
  assumes "a < 0" and "0 < m"
  shows "trunc_real (real_of_int a / real_of_int m) = - ((- a) div m)"
proof -
  have "real_of_int a / real_of_int m \<le> 0" using assms by (simp add: divide_nonpos_pos)
  then have "trunc_real (real_of_int a / real_of_int m) = \<lceil>real_of_int a / real_of_int m\<rceil>"
    by (auto simp: trunc_real_def)
  also have "\<dots> = - \<lfloor>real_of_int (- a) / real_of_int m\<rfloor>" by (simp add: ceiling_def)
  also have "\<dots> = - ((- a) div m)" by (simp only: floor_divide_of_int_eq)
  finally show ?thesis .
qed

lemma js_rem_int:
  assumes "0 < m"
  shows "js_rem (Num (real_of_int a)) (Num (real_of_int m)) =
           Num (real_of_int (if 0 \<le> a then a mod m else - ((- a) mod m)))"
proof (cases "0 \<le> a")
  case True
  have "a - m * (a div m) = a mod m" by (simp add: minus_mult_div_eq_mod)
  then have "real_of_int a - real_of_int m * real_of_int (a div m) = real_of_int (a mod m)"
    by (metis of_int_diff of_int_mult)
  then show ?thesis using True assms by (simp add: trunc_quotient_nonneg)
next
  case False
  then have neg: "a < 0" by simp
  have "(- a) mod m = (- a) - m * ((- a) div m)"
    by (rule minus_mult_div_eq_mod[symmetric])
  then have "a - m * (- ((- a) div m)) = - ((- a) mod m)"
    unfolding mult_minus_right by linarith
  then have "real_of_int a - real_of_int m * real_of_int (- ((- a) div m)) = real_of_int (- ((- a) mod m))"
    by (metis of_int_diff of_int_mult)
  then show ?thesis using False assms by (simp add: trunc_quotient_neg[OF neg assms])
qed

text \<open>
  For an integer operand and a memory of \<open>m\<close> cells, \<open>0 < m < 2^32\<close>, the address
  \<open>((a % m) + m) % m\<close> is \<open>a\<close> modulo \<open>m\<close>.
\<close>

lemma double_rem_is_mod:
  assumes "0 < m" and "m < 2 ^ 32"
  shows "js_rem (js_add (js_rem (Num (real_of_int a)) (Num (real_of_int m))) (Num (real_of_int m)))
           (Num (real_of_int m)) = Num (real_of_int (a mod m))"
proof -
  define r where "r = (if 0 \<le> a then a mod m else - ((- a) mod m))"
  have r: "js_rem (Num (real_of_int a)) (Num (real_of_int m)) = Num (real_of_int r)"
    unfolding r_def using assms(1) by (rule js_rem_int)
  have b1: "0 \<le> a mod m" "a mod m < m" "0 \<le> (- a) mod m" "(- a) mod m < m"
    using assms(1) by simp_all
  have rb: "- m < r" "r < m"
    using b1 assms(1) by (cases "0 \<le> a"; simp add: r_def; linarith)+
  then have "\<bar>r + m\<bar> \<le> 2 ^ 53" using assms(2) by simp
  then have "fl (real_of_int (r + m)) = Num (real_of_int (r + m))" by (rule fl_int)
  then have s: "js_add (Num (real_of_int r)) (Num (real_of_int m)) = Num (real_of_int (r + m))"
    by simp
  have "js_rem (Num (real_of_int (r + m))) (Num (real_of_int m)) =
      Num (real_of_int (if 0 \<le> r + m then (r + m) mod m else - ((- (r + m)) mod m)))"
    using assms(1) by (rule js_rem_int)
  then have t: "js_rem (Num (real_of_int (r + m))) (Num (real_of_int m)) = Num (real_of_int (r mod m))"
    using rb by simp
  have "r mod m = a mod m"
  proof (cases "0 \<le> a")
    case True
    then show ?thesis by (simp add: r_def)
  next
    case False
    then have "r mod m = (- ((- a) mod m)) mod m" by (simp add: r_def)
    also have "\<dots> = (- (- a)) mod m" by (rule mod_minus_eq)
    finally show ?thesis by simp
  qed
  then show ?thesis using r s t by simp
qed

lemma loadAddr_is_mod:
  assumes "memory s \<noteq> []" and "length (memory s) < 2 ^ 32"
    and "(case spec of ModeReg r \<Rightarrow> regs s ! r | ModeImm n \<Rightarrow> n) = Num (real_of_int a)"
  shows "loadAddr s spec = Num (real_of_int (a mod int (length (memory s))))"
proof -
  define m where "m = int (length (memory s))"
  have m: "0 < m" "m < 2 ^ 32" using assms(1,2) by (simp_all add: m_def)
  have "Num (real (length (memory s))) = Num (real_of_int m)" by (simp add: m_def)
  then show ?thesis
    unfolding loadAddr_def Let_def assms(3) using double_rem_is_mod[OF m, of a]
    by (simp add: m_def)
qed

lemma array_index_int: "0 \<le> i \<Longrightarrow> array_index (Num (real_of_int i)) = Some (nat i)"
  by (simp add: array_index_def)

text \<open>
  Claim C5, as stated, fails for an operand that the host's number does not hold exactly
  and for an empty memory. The literal \<open>2^53 + 1\<close> is parsed as \<open>2^53\<close>: with 256 cells the
  store goes to cell 0, while the operand modulo 256 is 1. With no cells the address is
  NaN, which is no cell at all: the store leaves a property on the array object.
\<close>

theorem address_counterexample:
  "exec_instr Map.empty (default_cpu\<lparr>regs := [Num 42, Num 0, Num 0, Num 0]\<rparr>)
     (STORE 0 (AddrImm 9007199254740993)) =
     Inr (default_cpu\<lparr>regs := [Num 42, Num 0, Num 0, Num 0],
                      memory := (memory default_cpu)[0 := Num 42],
                      pointer := pointer default_cpu + 1\<rparr>) \<and>
   (9007199254740993 :: int) mod 256 = 1 \<and>
   loadAddr (new_PL0CPU 4 0 256 (Num 65536) None None) (ModeImm (Num 5)) = NaN"
proof -
  let ?s = "default_cpu\<lparr>regs := [Num 42, Num 0, Num 0, Num 0]\<rparr>"
  have "(case ModeImm (parseInt 9007199254740993) of ModeReg r \<Rightarrow> regs ?s ! r | ModeImm n \<Rightarrow> n)
      = Num (real_of_int 9007199254740992)"
    by (simp add: parseInt_rounds_to_even)
  moreover have "memory ?s \<noteq> []" "length (memory ?s) < 2 ^ 32"
    using default_cpu_fields(7) by auto
  ultimately have "loadAddr ?s (ModeImm (parseInt 9007199254740993)) =
      Num (real_of_int (9007199254740992 mod int (length (memory ?s))))"
    by (intro loadAddr_is_mod) simp_all
  then have la: "loadAddr ?s (ModeImm (parseInt 9007199254740993)) = Num 0"
    by (simp add: default_cpu_fields)
  have "array_index (Num 0) = Some 0" by (simp add: array_index_def)
  then have "mem_write ?s (Num 0) (Num 42) = ?s\<lparr>memory := (memory default_cpu)[0 := Num 42]\<rparr>"
    by (simp add: mem_write_def default_cpu_fields)
  then have a: "exec_instr Map.empty ?s (STORE 0 (AddrImm 9007199254740993)) =
     Inr (default_cpu\<lparr>regs := [Num 42, Num 0, Num 0, Num 0],
                      memory := (memory default_cpu)[0 := Num 42],
                      pointer := pointer default_cpu + 1\<rparr>)"
    using la
    by (simp add: exec_store_mem_def parseAddrBracket_def bind_e_def parseReg_def numRegs_def)
  have b: "loadAddr (new_PL0CPU 4 0 256 (Num 65536) None None) (ModeImm (Num 5)) = NaN"
    by (simp add: loadAddr_def new_PL0CPU_def)
  show ?thesis using a b by simp
qed

text \<open>
  Claim C5, amended: with a memory of \<open>m\<close> cells, \<open>0 < m\<close> (and below \<open>2^32\<close>, as every
  array is), the address that \<open>LOAD\<close>, \<open>STORE\<close>, \<open>PEEK\<close> and \<open>POKE\<close> use for an operand
  \<open>[rN]\<close> whose register holds an integer \<open>a\<close>, or for a literal \<open>[a]\<close> that is a double,
  negative ones included, is \<open>a\<close> modulo \<open>m\<close> with a result in \<open>[0, m)\<close>; the cell read or
  written is the one at that index, and a store changes no other cell and not the size.
\<close>

theorem memory_access_wraps_into_range:
  assumes "memory s \<noteq> []" and "length (memory s) < 2 ^ 32" and "rX < numRegs s"
    and "case tok of AddrReg r \<Rightarrow> r < numRegs s \<and> regs s ! r = Num (real_of_int a)
                   | AddrImm n \<Rightarrow> n = a \<and> is_double (real_of_int a)"
  shows "\<exists>i spec. i = nat (a mod int (length (memory s))) \<and> i < length (memory s) \<and>
           parseAddrBracket s tok = Inr spec \<and> loadAddr s spec = Num (real i) \<and>
           exec_instr progs s (LOAD rX (Address tok)) =
             Inr (s\<lparr>regs := (regs s)[rX := memory s ! i], pointer := pointer s + 1\<rparr>) \<and>
           exec_instr progs s (PEEK rX tok) =
             Inr (s\<lparr>regs := (regs s)[rX := memory s ! i], pointer := pointer s + 1\<rparr>) \<and>
           exec_instr progs s (STORE rX tok) =
             Inr (s\<lparr>memory := (memory s)[i := regs s ! rX], pointer := pointer s + 1\<rparr>) \<and>
           exec_instr progs s (POKE rX tok) =
             Inr (s\<lparr>memory := (memory s)[i := regs s ! rX], pointer := pointer s + 1\<rparr>)"
proof -
  define m where "m = int (length (memory s))"
  define i where "i = nat (a mod m)"
  define spec where "spec = (case tok of AddrReg r \<Rightarrow> ModeReg r | AddrImm n \<Rightarrow> ModeImm (parseInt n))"
  have mpos: "0 < m" using assms(1) by (simp add: m_def)
  have lo: "0 \<le> a mod m" and hi: "a mod m < m" using mpos by simp_all
  have ib: "i < length (memory s)" using lo hi by (simp add: i_def m_def)
  have ri: "real_of_int (a mod m) = real i" using lo by (simp add: i_def)
  have pb: "parseAddrBracket s tok = Inr spec"
    using assms(4) by (cases tok) (simp_all add: spec_def parseAddrBracket_def parseReg_def bind_e_def)
  have "(case spec of ModeReg r \<Rightarrow> regs s ! r | ModeImm n \<Rightarrow> n) = Num (real_of_int a)"
    using assms(4) by (cases tok) (simp_all add: spec_def parseInt_def is_double_fl)
  then have "loadAddr s spec = Num (real_of_int (a mod int (length (memory s))))"
    using assms(1,2) by (intro loadAddr_is_mod)
  then have la: "loadAddr s spec = Num (real i)" using ri by (simp add: m_def)
  have ai: "array_index (Num (real i)) = Some i"
    using array_index_int[of "int i"] by simp
  have pr: "parseReg s rX = Inr rX" using assms(3) by (simp add: parseReg_def)
  have ld: "exec_load_mem s rX tok =
      Inr (s\<lparr>regs := (regs s)[rX := memory s ! i], pointer := pointer s + 1\<rparr>)"
    using pb la ai ib by (simp add: exec_load_mem_def bind_e_def mem_read_def)
  have st: "exec_store_mem s rX tok =
      Inr (s\<lparr>memory := (memory s)[i := regs s ! rX], pointer := pointer s + 1\<rparr>)"
    using pb la ai ib by (simp add: exec_store_mem_def bind_e_def mem_write_def)
  have "exec_instr progs s (LOAD rX (Address tok)) = exec_load_mem s rX tok"
    and "exec_instr progs s (PEEK rX tok) = exec_load_mem s rX tok"
    and "exec_instr progs s (STORE rX tok) = exec_store_mem s rX tok"
    and "exec_instr progs s (POKE rX tok) = exec_store_mem s rX tok"
    using pr by (simp_all add: bind_e_def)
  then show ?thesis using ld st la pb ib by (simp add: i_def m_def)
qed

theorem memory_access_wraps_into_range_witness:
  "memory (default_cpu\<lparr>regs := [Num 42, Num (- 3), Num 0, Num 0]\<rparr>) \<noteq> [] \<and>
   length (memory (default_cpu\<lparr>regs := [Num 42, Num (- 3), Num 0, Num 0]\<rparr>)) < 2 ^ 32 \<and>
   0 < numRegs (default_cpu\<lparr>regs := [Num 42, Num (- 3), Num 0, Num 0]\<rparr>) \<and>
   is_double (real_of_int (- 1)) \<and>
   exec_instr Map.empty (default_cpu\<lparr>regs := [Num 42, Num (- 3), Num 0, Num 0]\<rparr>)
     (STORE 0 (AddrImm (- 1))) =
     Inr (default_cpu\<lparr>regs := [Num 42, Num (- 3), Num 0, Num 0],
                      memory := (memory default_cpu)[255 := Num 42],
                      pointer := pointer default_cpu + 1\<rparr>) \<and>
   exec_instr Map.empty (default_cpu\<lparr>regs := [Num 42, Num (- 3), Num 0, Num 0]\<rparr>)
     (POKE 0 (AddrReg 1)) =
     Inr (default_cpu\<lparr>regs := [Num 42, Num (- 3), Num 0, Num 0],
                      memory := (memory default_cpu)[253 := Num 42],
                      pointer := pointer default_cpu + 1\<rparr>)"
proof -
  let ?s = "default_cpu\<lparr>regs := [Num 42, Num (- 3), Num 0, Num 0]\<rparr>"
  have h1: "memory ?s \<noteq> []" using default_cpu_fields(7) by auto
  have h2: "length (memory ?s) < 2 ^ 32" by (simp add: default_cpu_fields)
  have h3: "0 < numRegs ?s" by (simp add: numRegs_def)
  have d: "is_double (real_of_int (- 1))" by (rule is_double_int) simp
  have h4: "case AddrImm (- 1) of AddrReg r \<Rightarrow> r < numRegs ?s \<and> regs ?s ! r = Num (real_of_int (- 1))
                   | AddrImm n \<Rightarrow> n = - 1 \<and> is_double (real_of_int (- 1))"
    using d by simp
  have h5: "case AddrReg 1 of AddrReg r \<Rightarrow> r < numRegs ?s \<and> regs ?s ! r = Num (real_of_int (- 3))
                   | AddrImm n \<Rightarrow> n = - 3 \<and> is_double (real_of_int (- 3))"
    by (simp add: numRegs_def)
  from memory_access_wraps_into_range[OF h1 h2 h3 h4, of Map.empty]
    memory_access_wraps_into_range[OF h1 h2 h3 h5, of Map.empty]
  show ?thesis using h1 h2 h3 d by (auto simp add: default_cpu_fields)
qed

subsection \<open>The data stack\<close>

lemma push_result:
  assumes "exec_instr progs s (PUSH r) = Inr s1"
  shows "dataStack s1 = dataStack s @ [regs s ! r] \<and> regs s1 = regs s \<and>
         dataStackMax s1 = dataStackMax s \<and> length (dataStack s) < dataStackMax s"
  using assms by (auto simp: bind_e_def parseReg_def split: if_splits)

lemma push_seq_result:
  "exec_seq progs s (map PUSH rs) = Inr s1 \<Longrightarrow>
     dataStack s1 = dataStack s @ map (\<lambda>r. regs s ! r) rs \<and> regs s1 = regs s"
proof (induction rs arbitrary: s)
  case Nil
  then show ?case by simp
next
  case (Cons r rs)
  from Cons.prems obtain s' where
    st: "exec_instr progs s (PUSH r) = Inr s'" and rest: "exec_seq progs s' (map PUSH rs) = Inr s1"
    by (cases "exec_instr progs s (PUSH r)") (simp_all add: bind_e_def del: exec_instr.simps)
  from push_result[OF st] Cons.IH[OF rest] show ?case by simp
qed

lemma pop_result:
  assumes "r < numRegs s" and "dataStack s \<noteq> []"
  shows "exec_instr progs s (POP r) =
           Inr (s\<lparr>regs := (regs s)[r := last (dataStack s)], dataStack := butlast (dataStack s),
                  pointer := pointer s + 1\<rparr>)"
  using assms by (simp add: bind_e_def parseReg_def)

lemma pop_seq_result:
  "\<forall>r\<in>set rs. r < numRegs s \<Longrightarrow> length rs \<le> length (dataStack s) \<Longrightarrow>
     \<exists>s2. exec_seq progs s (map POP rs) = Inr s2 \<and>
          dataStack s2 = take (length (dataStack s) - length rs) (dataStack s)"
proof (induction rs arbitrary: s)
  case Nil
  then show ?case by simp
next
  case (Cons r rs)
  let ?s' = "s\<lparr>regs := (regs s)[r := last (dataStack s)], dataStack := butlast (dataStack s),
               pointer := pointer s + 1\<rparr>"
  have ne: "dataStack s \<noteq> []" using Cons.prems(2) by auto
  have r: "r < numRegs s" using Cons.prems(1) by simp
  have st: "exec_instr progs s (POP r) = Inr ?s'" using r ne by (rule pop_result)
  have "\<forall>r\<in>set rs. r < numRegs ?s'" using Cons.prems(1) by (simp add: numRegs_def)
  moreover have "length rs \<le> length (dataStack ?s')" using Cons.prems(2) by simp
  ultimately obtain s2 where
    run: "exec_seq progs ?s' (map POP rs) = Inr s2" and
    ds: "dataStack s2 = take (length (dataStack ?s') - length rs) (dataStack ?s')"
    using Cons.IH[of ?s'] by blast
  have "exec_seq progs s (map POP (r # rs)) = Inr s2"
    using st run by (simp add: bind_e_def del: exec_instr.simps)
  moreover have "dataStack s2 = take (length (dataStack s) - length (r # rs)) (dataStack s)"
    using ds by (simp add: butlast_conv_take min_def)
  ultimately show ?case by blast
qed

text \<open>
  Claim C6: \<open>PUSH\<close> on a data stack that holds \<open>dataStackMax\<close> values (or more) is the
  overflow error, \<open>POP\<close> on an empty data stack is the underflow error, each thrown with
  the machine as it was, and after any \<open>N\<close> successful \<open>PUSH\<close>es, \<open>N\<close> \<open>POP\<close>s into valid
  registers all succeed and leave the data stack as it was before the first \<open>PUSH\<close>.
\<close>

theorem data_stack_discipline:
  "(rX < numRegs s \<and> length (dataStack s) \<ge> dataStackMax s \<longrightarrow>
      exec_instr progs s (PUSH rX) = Inl (Data_stack_overflow, s)) \<and>
   (rX < numRegs s \<and> dataStack s = [] \<longrightarrow>
      exec_instr progs s (POP rX) = Inl (Data_stack_underflow, s)) \<and>
   (exec_seq progs s (map PUSH rs) = Inr s1 \<and> length rs' = length rs \<and>
    (\<forall>r\<in>set rs'. r < numRegs s) \<longrightarrow>
      (\<exists>s2. exec_seq progs s1 (map POP rs') = Inr s2 \<and> dataStack s2 = dataStack s))"
proof (intro conjI impI)
  assume "rX < numRegs s \<and> length (dataStack s) \<ge> dataStackMax s"
  then show "exec_instr progs s (PUSH rX) = Inl (Data_stack_overflow, s)"
    by (simp add: bind_e_def parseReg_def)
next
  assume "rX < numRegs s \<and> dataStack s = []"
  then show "exec_instr progs s (POP rX) = Inl (Data_stack_underflow, s)"
    by (simp add: bind_e_def parseReg_def)
next
  assume a: "exec_seq progs s (map PUSH rs) = Inr s1 \<and> length rs' = length rs \<and>
    (\<forall>r\<in>set rs'. r < numRegs s)"
  then have p: "dataStack s1 = dataStack s @ map (\<lambda>r. regs s ! r) rs" and q: "regs s1 = regs s"
    using push_seq_result[of progs s rs s1] by simp_all
  have "\<forall>r\<in>set rs'. r < numRegs s1" using a q by (simp add: numRegs_def)
  moreover have "length rs' \<le> length (dataStack s1)" using a p by simp
  ultimately obtain s2 where
    run: "exec_seq progs s1 (map POP rs') = Inr s2" and
    ds: "dataStack s2 = take (length (dataStack s1) - length rs') (dataStack s1)"
    using pop_seq_result[of rs' s1 progs] by blast
  have "dataStack s2 = dataStack s" using ds p a by simp
  then show "\<exists>s2. exec_seq progs s1 (map POP rs') = Inr s2 \<and> dataStack s2 = dataStack s"
    using run by blast
qed

theorem data_stack_discipline_witness:
  "0 < numRegs (default_cpu\<lparr>dataStack := [Num 9], dataStackMax := 1\<rparr>) \<and>
   length (dataStack (default_cpu\<lparr>dataStack := [Num 9], dataStackMax := 1\<rparr>))
     \<ge> dataStackMax (default_cpu\<lparr>dataStack := [Num 9], dataStackMax := 1\<rparr>) \<and>
   exec_instr Map.empty (default_cpu\<lparr>dataStack := [Num 9], dataStackMax := 1\<rparr>) (PUSH 0)
     = Inl (Data_stack_overflow, default_cpu\<lparr>dataStack := [Num 9], dataStackMax := 1\<rparr>) \<and>
   0 < numRegs default_cpu \<and> dataStack default_cpu = [] \<and>
   exec_instr Map.empty default_cpu (POP 0) = Inl (Data_stack_underflow, default_cpu) \<and>
   (\<exists>s1. exec_seq Map.empty (default_cpu\<lparr>dataStack := [Num 9]\<rparr>) (map PUSH [0, 1]) = Inr s1 \<and>
      dataStack s1 = [Num 9, Num 0, Num 0] \<and>
      length [2, 3 :: nat] = length [0, 1 :: nat] \<and>
      (\<forall>r\<in>set [2, 3]. r < numRegs (default_cpu\<lparr>dataStack := [Num 9]\<rparr>)) \<and>
      (\<exists>s2. exec_seq Map.empty s1 (map POP [2, 3]) = Inr s2 \<and> dataStack s2 = [Num 9]))"
proof -
  let ?f = "default_cpu\<lparr>dataStack := [Num 9], dataStackMax := 1\<rparr>"
  let ?t = "default_cpu\<lparr>dataStack := [Num 9]\<rparr>"
  have h1: "0 < numRegs ?f \<and> length (dataStack ?f) \<ge> dataStackMax ?f"
    by (simp add: numRegs_def default_cpu_fields)
  have h2: "0 < numRegs default_cpu \<and> dataStack default_cpu = []"
    by (simp add: default_cpu_fields)
  have "\<exists>s1. exec_seq Map.empty ?t (map PUSH [0, 1]) = Inr s1 \<and>
          dataStack s1 = [Num 9, Num 0, Num 0]"
    by (simp add: bind_e_def parseReg_def numRegs_def default_cpu_def new_PL0CPU_def)
  then obtain s1 where h3: "exec_seq Map.empty ?t (map PUSH [0, 1]) = Inr s1"
    and h3': "dataStack s1 = [Num 9, Num 0, Num 0]"
    by blast
  have h4: "length [2, 3 :: nat] = length [0, 1 :: nat]" by simp
  have h5: "\<forall>r\<in>set [2, 3]. r < numRegs ?t" by (simp add: numRegs_def default_cpu_fields)
  have c1: "exec_instr Map.empty ?f (PUSH 0) = Inl (Data_stack_overflow, ?f)"
    using data_stack_discipline[of 0 ?f Map.empty] h1 by blast
  have c2: "exec_instr Map.empty default_cpu (POP 0) = Inl (Data_stack_underflow, default_cpu)"
    using data_stack_discipline[of 0 default_cpu Map.empty] h2 by blast
  have c3: "\<exists>s2. exec_seq Map.empty s1 (map POP [2, 3]) = Inr s2 \<and> dataStack s2 = dataStack ?t"
    using data_stack_discipline[of _ ?t Map.empty "[0, 1]" s1 "[2, 3]"] h3 h4 h5 by blast
  then have "\<exists>s2. exec_seq Map.empty s1 (map POP [2, 3]) = Inr s2 \<and> dataStack s2 = [Num 9]" by simp
  then show ?thesis using h1 h2 h3 h3' h4 h5 c1 c2 by blast
qed

subsection \<open>Cross-program call and return\<close>

text \<open>
  \<open>PL0CALL name\<close> for a name that the registry holds pushes the frame of the current
  instruction sequence, label table and \<open>pointer + 1\<close>, makes the callee the active
  sequence with its own label table built anew and the pointer at 0; a \<open>RET\<close> executed
  while that frame is on top of the call stack pops it and restores the caller's sequence
  and label table with the pointer just after the \<open>PL0CALL\<close>. \<open>RET\<close> on an empty call
  stack clears the running flag without an error, and the run loop then returns. \<open>PL0CALL\<close>
  of a name that neither the registry nor \<open>Object.prototype\<close> holds is a fatal error.
\<close>

lemma pl0call_ret_roundtrip:
  "(progs name = None \<and> name \<notin> dom Object_prototype \<longrightarrow>
      exec_instr progs s (PL0CALL name) = Inl (No_compiled_program name, s)) \<and>
   (progs name = Some callee \<longrightarrow>
      (\<exists>s1. exec_instr progs s (PL0CALL name) = Inr s1 \<and>
         callStack s1 = callStack s @ [Context (instructions s) (labelMap s) (pointer s + 1)] \<and>
         instructions s1 = callee \<and> labelMap s1 = buildLabelMap callee \<and> pointer s1 = 0 \<and>
         (\<forall>s2. callStack s2 = callStack s1 \<longrightarrow>
            (\<exists>s3. exec_instr progs s2 RET = Inr s3 \<and>
               instructions s3 = instructions s \<and> labelMap s3 = labelMap s \<and>
               pointer s3 = pointer s + 1 \<and> callStack s3 = callStack s \<and>
               running s3 = running s2)))) \<and>
   (callStack s = [] \<longrightarrow>
      exec_instr progs s RET = Inr (s\<lparr>running := False\<rparr>) \<and>
      exec_loop progs maxSteps (s\<lparr>running := False\<rparr>) steps = Inr (s\<lparr>running := False\<rparr>, steps))"
proof -
  have unreg: "exec_instr progs s (PL0CALL name) = Inl (No_compiled_program name, s)"
    if "progs name = None \<and> name \<notin> dom Object_prototype"
    using that by (simp add: call_program_def Let_def domIff)
  let ?s1 = "s\<lparr>callStack := callStack s @ [Context (instructions s) (labelMap s) (pointer s + 1)],
               instructions := callee, labelMap := buildLabelMap callee, pointer := 0\<rparr>"
  have ret: "\<exists>s3. exec_instr progs s2 RET = Inr s3 \<and>
               instructions s3 = instructions s \<and> labelMap s3 = labelMap s \<and>
               pointer s3 = pointer s + 1 \<and> callStack s3 = callStack s \<and>
               running s3 = running s2"
    if "callStack s2 = callStack ?s1" for s2
    using that by (simp add: Let_def)
  have reg: "\<exists>s1. exec_instr progs s (PL0CALL name) = Inr s1 \<and>
         callStack s1 = callStack s @ [Context (instructions s) (labelMap s) (pointer s + 1)] \<and>
         instructions s1 = callee \<and> labelMap s1 = buildLabelMap callee \<and> pointer s1 = 0 \<and>
         (\<forall>s2. callStack s2 = callStack s1 \<longrightarrow>
            (\<exists>s3. exec_instr progs s2 RET = Inr s3 \<and>
               instructions s3 = instructions s \<and> labelMap s3 = labelMap s \<and>
               pointer s3 = pointer s + 1 \<and> callStack s3 = callStack s \<and>
               running s3 = running s2))"
    if "progs name = Some callee"
  proof (intro exI[of _ ?s1] conjI)
    show "exec_instr progs s (PL0CALL name) = Inr ?s1"
      using that by (simp add: call_program_def Let_def)
    show "\<forall>s2. callStack s2 = callStack ?s1 \<longrightarrow>
            (\<exists>s3. exec_instr progs s2 RET = Inr s3 \<and>
               instructions s3 = instructions s \<and> labelMap s3 = labelMap s \<and>
               pointer s3 = pointer s + 1 \<and> callStack s3 = callStack s \<and>
               running s3 = running s2)"
      using ret by blast
  qed simp_all
  have halt: "exec_instr progs s RET = Inr (s\<lparr>running := False\<rparr>) \<and>
      exec_loop progs maxSteps (s\<lparr>running := False\<rparr>) steps = Inr (s\<lparr>running := False\<rparr>, steps)"
    if "callStack s = []"
    using that by (simp add: exec_loop.simps)
  show ?thesis using unreg reg halt by blast
qed

text \<open>
  Through the run loop: the caller invokes \<open>sub\<close>, which defines the label \<open>L\<close> as the
  caller does; after the callee's \<open>RET\<close> the caller continues behind its \<open>PL0CALL\<close> with
  its own label table.
\<close>

lemma call_across_programs_run:
  "\<exists>s n. execute demo_registry (addInstructions default_cpu caller_program) 100 = Inr (s, n) \<and>
     regs s ! 0 = Num 7 \<and> regs s ! 1 = Num 5 \<and> pointer s = 4 \<and> \<not> running s \<and>
     labelMap s ''L'' = Some 2 \<and> instructions s = caller_program \<and> callStack s = []"
  by (simp add: execute_def addInstructions_def default_cpu_def new_PL0CPU_def caller_program_def
      demo_registry_def sub_program_def exec_loop.simps bind_e_def parseReg_def numRegs_def
      buildLabelMap_def call_program_def parseInt_def fl_numeral)

text \<open>
  Claim C2 fails on the code in its last part: the registry is a plain object and the
  test is \<open>!PL0Programs[name]\<close>, so a name that the registry does not hold but
  \<open>Object.prototype\<close> does is taken for a program. \<open>PL0CALL toString\<close> with a registry
  that holds only \<open>sub\<close> raises no error: the frame is pushed, the function found
  becomes the instruction sequence, and the run ends there without an error, the
  caller's next line never executed.
\<close>

theorem pl0call_inherited_name_is_no_error:
  "demo_registry ''toString'' = None \<and>
   exec_instr demo_registry
     (default_cpu\<lparr>instructions := [PL0CALL ''toString'', LOAD 0 (Immediate 1)]\<rparr>)
     (PL0CALL ''toString'') =
     Inr (default_cpu\<lparr>instructions := [],
            callStack := [Context [PL0CALL ''toString'', LOAD 0 (Immediate 1)] Map.empty 1]\<rparr>) \<and>
   execute demo_registry
     (addInstructions default_cpu [PL0CALL ''toString'', LOAD 0 (Immediate 1)]) 100 =
     Inr (default_cpu\<lparr>instructions := [], running := True,
            callStack := [Context [PL0CALL ''toString'', LOAD 0 (Immediate 1)] Map.empty 1]\<rparr>, 1) \<and>
   regs default_cpu ! 0 = Num 0"
  by (simp add: execute_def addInstructions_def default_cpu_def new_PL0CPU_def
      demo_registry_def exec_loop.simps call_program_def Object_prototype_def
      buildLabelMap_def Let_def)

subsection \<open>The step bound\<close>

lemma exec_loop_steps_bound:
  "exec_loop progs maxSteps s steps = Inr (s1, n) \<Longrightarrow> n \<le> max steps (maxSteps + 1)"
proof (induction progs maxSteps s steps rule: exec_loop.induct)
  case (1 progs maxSteps s steps)
  show ?case
  proof (cases "running s \<and> pointer s < length (instructions s)")
    case False
    then have "n = steps"
      using "1.prems" by (auto simp: exec_loop.simps[of progs maxSteps s steps])
    then show ?thesis by simp
  next
    case True
    then have le: "\<not> maxSteps < steps"
      using "1.prems" by (auto simp: exec_loop.simps[of progs maxSteps s steps] split: if_splits)
    then obtain s' where
      st: "exec_instr progs s (instructions s ! pointer s) = Inr s'" and
      rest: "exec_loop progs maxSteps s' (Suc steps) = Inr (s1, n)"
      using True "1.prems"
      by (cases "exec_instr progs s (instructions s ! pointer s)")
         (simp_all add: exec_loop.simps[of progs maxSteps s steps])
    from "1.IH"[OF True le st rest] le show ?thesis by simp
  qed
qed

text \<open>
  Claim C8 fails on the code: with \<open>maxSteps = 1\<close> a program of two instructions runs
  to its end, both instructions executed and no error raised. The test
  \<open>steps++ > maxSteps\<close> lets \<open>maxSteps + 1\<close> lines through.
\<close>

theorem max_steps_lets_one_more_through:
  "\<exists>s. execute Map.empty
          (addInstructions default_cpu [LOAD 0 (Immediate 1), LOAD 1 (Immediate 2)]) 1 = Inr (s, 2) \<and>
        regs s ! 0 = Num 1 \<and> regs s ! 1 = Num 2 \<and> pointer s = 2"
  by (simp add: execute_def addInstructions_def default_cpu_def new_PL0CPU_def
      exec_loop.simps bind_e_def parseReg_def numRegs_def buildLabelMap_def parseInt_def
      fl_numeral fl_one)

text \<open>What the loop does enforce: no run fetches more than \<open>maxSteps + 1\<close> lines.\<close>

lemma execute_steps_bound:
  "execute progs s maxSteps = Inr (s1, n) \<Longrightarrow> n \<le> maxSteps + 1"
  using exec_loop_steps_bound[of progs maxSteps _ 0 s1 n] by (simp add: execute_def)

lemma third_line_exceeds:
  "\<exists>s. execute Map.empty
     (addInstructions default_cpu [LOAD 0 (Immediate 1), LOAD 1 (Immediate 2), HALT]) 1
   = Inl (Exceeded_maxSteps 1, s) \<and> regs s ! 0 = Num 1 \<and> regs s ! 1 = Num 2 \<and> pointer s = 2"
  by (simp add: execute_def addInstructions_def default_cpu_def new_PL0CPU_def
      exec_loop.simps bind_e_def parseReg_def numRegs_def buildLabelMap_def parseInt_def
      fl_numeral fl_one)

section \<open>Properties of the binary arithmetic provider\<close>








subsection \<open>The blend and the decoding in double arithmetic\<close>

text \<open>
  The products and the sum of the blend are rounded one by one. With the mix factor
  \<open>0.3\<close>, exact value 6 and prediction 1 the blend is evaluated to
  \<open>4.499999999999999\<close>, which \<open>Math.round\<close> takes to 4, where the blend over the reals is
  \<open>4.5\<close> and would be taken to 5. With the threshold 1 the fallback fires for the
  blended value 4 and the result is 6.
\<close>

lemma three_tenths_literal: "literal (3 / 10) = Num (5404319552844595 / 2 ^ 54)"
proof -
  have e: "fl (3 / 10) = Num (real_of_int (rne ((3 / 10) / pow2 (- 2 - 52))) * pow2 (- 2 - 52))"
    using pow2_neg[of 2] pow2_neg[of 1] pow2_nat[of 2] pow2_nat[of 1] by (intro fl_eval) simp_all
  have p: "pow2 (- 2 - 52) = 1 / 2 ^ 54" using pow2_neg[of 54] pow2_nat[of 54] by simp
  have r: "rne ((3 / 10) / (1 / 2 ^ 54)) = 5404319552844595"
    by (simp add: rne_def Let_def)
  have "fl (3 / 10) = Num (5404319552844595 / 2 ^ 54)"
    using e unfolding p r by simp
  then show ?thesis by (simp add: literal_def)
qed

lemma one_minus_three_tenths:
  "js_sub (Num 1) (Num (5404319552844595 / 2 ^ 54)) = Num (6305039478318694 / 2 ^ 53)"
proof -
  define x :: real where "x = 1 + - (5404319552844595 / 2 ^ 54)"
  have e: "fl x = Num (real_of_int (rne (x / pow2 (- 1 - 52))) * pow2 (- 1 - 52))"
    using pow2_neg[of 1] pow2_nat[of 1] pow2_nat[of 0] by (intro fl_eval) (simp_all add: x_def)
  have p: "pow2 (- 1 - 52) = 1 / 2 ^ 53" using pow2_neg[of 53] pow2_nat[of 53] by simp
  have r: "rne (x / (1 / 2 ^ 53)) = 6305039478318694"
    by (simp add: rne_def Let_def x_def)
  have "fl x = Num (6305039478318694 / 2 ^ 53)"
    using e unfolding p r by simp
  then show ?thesis by (simp add: js_sub_def js_neg_def x_def)
qed

lemma six_times_seven_tenths:
  "js_mul (Num 6) (Num (6305039478318694 / 2 ^ 53)) = Num (4728779608739020 / 2 ^ 50)"
proof -
  define x :: real where "x = 6 * (6305039478318694 / 2 ^ 53)"
  have e: "fl x = Num (real_of_int (rne (x / pow2 (2 - 52))) * pow2 (2 - 52))"
    using pow2_nat[of 2] pow2_nat[of 3] by (intro fl_eval) (simp_all add: x_def)
  have p: "pow2 (2 - 52) = 1 / 2 ^ 50" using pow2_neg[of 50] pow2_nat[of 50] by simp
  have r: "rne (x / (1 / 2 ^ 50)) = 4728779608739020"
    by (simp add: rne_def Let_def x_def)
  have "fl x = Num (4728779608739020 / 2 ^ 50)"
    using e unfolding p r by simp
  then show ?thesis by (simp add: x_def)
qed

lemma once_three_tenths:
  "js_mul (Num 1) (Num (5404319552844595 / 2 ^ 54)) = Num (5404319552844595 / 2 ^ 54)"
proof -
  have "fl (3 / 10) = Num (5404319552844595 / 2 ^ 54)"
    using three_tenths_literal by (simp add: literal_def)
  then have "fl (5404319552844595 / 2 ^ 54) = Num (5404319552844595 / 2 ^ 54)" by (rule fl_idem)
  then show ?thesis by simp
qed

lemma blend_sum_rounded:
  "js_add (Num (4728779608739020 / 2 ^ 50)) (Num (5404319552844595 / 2 ^ 54)) =
     Num (5066549580791807 / 2 ^ 50)"
proof -
  define x :: real where "x = 4728779608739020 / 2 ^ 50 + 5404319552844595 / 2 ^ 54"
  have e: "fl x = Num (real_of_int (rne (x / pow2 (2 - 52))) * pow2 (2 - 52))"
    using pow2_nat[of 2] pow2_nat[of 3] by (intro fl_eval) (simp_all add: x_def)
  have p: "pow2 (2 - 52) = 1 / 2 ^ 50" using pow2_neg[of 50] pow2_nat[of 50] by simp
  have r: "rne (x / (1 / 2 ^ 50)) = 5066549580791807"
    by (simp add: rne_def Let_def x_def)
  have "fl x = Num (5066549580791807 / 2 ^ 50)"
    using e unfolding p r by simp
  then show ?thesis by (simp add: x_def)
qed

lemma three_tenths_blend:
  "js_add (js_mul (Num 6) (js_sub (Num 1) (literal (3 / 10)))) (js_mul (Num 1) (literal (3 / 10))) =
     Num (5066549580791807 / 2 ^ 50)"
  by (simp only: three_tenths_literal one_minus_three_tenths six_times_seven_tenths
      once_three_tenths blend_sum_rounded)

lemma three_tenths_alu_add:
  "exact (computeDetailed three_tenths_alu ADD (Num 2) (Num 4)) = Num 6"
  "pred (computeDetailed three_tenths_alu ADD (Num 2) (Num 4)) = Num 1"
  "mixed (computeDetailed three_tenths_alu ADD (Num 2) (Num 4)) = Num 4"
  "usedFallback (computeDetailed three_tenths_alu ADD (Num 2) (Num 4))"
  "result (computeDetailed three_tenths_alu ADD (Num 2) (Num 4)) = Num 6"
  "\<lfloor>(6 * (1 - 3 / 10) + 1 * (3 / 10) :: real) + 1 / 2\<rfloor> = 5"
proof -
  let ?d = "computeDetailed three_tenths_alu ADD (Num 2) (Num 4)"
  have p: "decodeInt three_tenths_alu (addNet three_tenths_alu x) ADD = Num 1" for x
    by (simp add: decodeInt_def three_tenths_alu_def clamp_def Math_max_def Math_min_def fl_one
      Math_round_def Let_def)
  show e: "exact ?d = Num 6" by (simp add: computeDetailed_def Let_def fl_numeral)
  show q: "pred ?d = Num 1" by (simp add: computeDetailed_def Let_def p)
  have "mixed ?d = Math_round (js_add (js_mul (exact ?d) (js_sub (Num 1) (mix three_tenths_alu)))
                                      (js_mul (pred ?d) (mix three_tenths_alu)))"
    by (simp add: computeDetailed_def Let_def)
  also have "mix three_tenths_alu = literal (3 / 10)" by (simp add: three_tenths_alu_def)
  finally have "mixed ?d = Math_round (Num (5066549580791807 / 2 ^ 50))"
    by (simp only: e q three_tenths_blend)
  then show m: "mixed ?d = Num 4" by (simp add: Math_round_def)
  have "usedFallback ?d = (safetyFallback three_tenths_alu \<and>
          js_gt (Math_abs (js_sub (mixed ?d) (exact ?d))) (fallbackAbsError three_tenths_alu))"
    by (simp add: computeDetailed_def Let_def)
  also have "\<dots>"
    unfolding m e
    by (simp add: three_tenths_alu_def js_sub_def js_neg_def fl_neg_numeral Math_abs_def js_gt_def)
  finally show u: "usedFallback ?d" .
  have "result ?d = (if usedFallback ?d then exact ?d else mixed ?d)"
    by (simp add: computeDetailed_def Let_def)
  then show "result ?d = Num 6" using u e by simp
  show "\<lfloor>(6 * (1 - 3 / 10) + 1 * (3 / 10) :: real) + 1 / 2\<rfloor> = 5" by simp
qed

text \<open>
  Likewise the decoding of a network output: \<open>0.29 * 100\<close> is evaluated to
  \<open>28.999999999999996\<close>, the floor of which is 28.
\<close>

lemma literal_29_hundredths: "literal (29 / 100) = Num (5224175567749775 / 2 ^ 54)"
proof -
  have e: "fl (29 / 100) = Num (real_of_int (rne ((29 / 100) / pow2 (- 2 - 52))) * pow2 (- 2 - 52))"
    using pow2_neg[of 2] pow2_neg[of 1] pow2_nat[of 2] pow2_nat[of 1] by (intro fl_eval) simp_all
  have p: "pow2 (- 2 - 52) = 1 / 2 ^ 54" using pow2_neg[of 54] pow2_nat[of 54] by simp
  have r: "rne ((29 / 100) / (1 / 2 ^ 54)) = 5224175567749775"
    by (simp add: rne_def Let_def)
  have "fl (29 / 100) = Num (5224175567749775 / 2 ^ 54)"
    using e unfolding p r by simp
  then show ?thesis by (simp add: literal_def)
qed

lemma hundred_times_29_hundredths:
  "js_mul (Num (5224175567749775 / 2 ^ 54)) (Num 100) = Num (8162774324609023 / 2 ^ 48)"
proof -
  define x :: real where "x = 5224175567749775 / 2 ^ 54 * 100"
  have e: "fl x = Num (real_of_int (rne (x / pow2 (4 - 52))) * pow2 (4 - 52))"
    using pow2_nat[of 4] pow2_nat[of 5] by (intro fl_eval) (simp_all add: x_def)
  have p: "pow2 (4 - 52) = 1 / 2 ^ 48" using pow2_neg[of 48] pow2_nat[of 48] by simp
  have r: "rne (x / (1 / 2 ^ 48)) = 8162774324609023"
    by (simp add: rne_def Let_def x_def)
  have "fl x = Num (8162774324609023 / 2 ^ 48)"
    using e unfolding p r by simp
  then show ?thesis by (simp add: x_def)
qed

lemma decode_rounding_example:
  "decodeInt (half_mix_alu\<lparr>scale := Num 100\<rparr>) (literal (29 / 100)) DIV = Num 28"
  "\<lfloor>(29 / 100 * 100 :: real)\<rfloor> = 29"
proof -
  have "clamp (Num (5224175567749775 / 2 ^ 54)) (Num (- 1)) (Num 1) = Num (5224175567749775 / 2 ^ 54)"
    by (simp add: clamp_Num)
  then have "js_mul (clamp (literal (29 / 100)) (Num (- 1)) (Num 1)) (Num 100) =
      Num (8162774324609023 / 2 ^ 48)"
    by (simp only: literal_29_hundredths hundred_times_29_hundredths)
  then show "decodeInt (half_mix_alu\<lparr>scale := Num 100\<rparr>) (literal (29 / 100)) DIV = Num 28"
    by (simp add: decodeInt_def half_mix_alu_def Math_floor_def)
  show "\<lfloor>(29 / 100 * 100 :: real)\<rfloor> = 29" by simp
qed

section \<open>Properties of the unary math provider\<close>

lemma fl_between:
  assumes lo: "real_of_int a / 2 ^ j \<le> x" and hi: "x \<le> real_of_int b / 2 ^ j"
    and j: "j \<le> 16" and ab: "\<bar>a\<bar> \<le> 2 ^ 20" "\<bar>b\<bar> \<le> 2 ^ 20"
  shows "\<exists>y. fl x = Num y \<and> real_of_int a / 2 ^ j \<le> y \<and> y \<le> real_of_int b / 2 ^ j \<and>
             fl y = Num y"
proof -
  have bound: "\<bar>real_of_int c / 2 ^ j\<bar> \<le> 2 ^ 20" if "\<bar>c\<bar> \<le> 2 ^ 20" for c :: int
  proof -
    have "\<bar>real_of_int c\<bar> \<le> 2 ^ 20"
      using that of_int_le_iff[of "\<bar>c\<bar>" "2 ^ 20", where ?'a = real] by simp
    moreover have "\<bar>real_of_int c / 2 ^ j\<bar> \<le> \<bar>real_of_int c\<bar> / 1"
      unfolding abs_divide by (intro divide_left_mono) simp_all
    ultimately show ?thesis by simp
  qed
  have "\<bar>real_of_int a / 2 ^ j\<bar> \<le> 2 ^ 20" and "\<bar>real_of_int b / 2 ^ j\<bar> \<le> 2 ^ 20"
    using ab bound by blast+
  then have "\<bar>x\<bar> \<le> 2 ^ 20" using lo hi by linarith
  moreover have "pow2 20 < pow2 (53 - int j)" using j by (simp add: pow2_less_iff)
  moreover have "pow2 20 = 2 ^ 20" using pow2_nat[of 20] by simp
  ultimately have small: "\<bar>x\<bar> < pow2 (53 - int j)" by linarith
  have j': "j \<le> 1074" using j by simp
  have a': "\<bar>a\<bar> \<le> 2 ^ 53" and b': "\<bar>b\<bar> \<le> 2 ^ 53" using ab by simp_all
  from fl_between_dyadic[OF lo hi small j' a' b'] obtain y where
    y: "fl x = Num y" "real_of_int a / 2 ^ j \<le> y" "y \<le> real_of_int b / 2 ^ j"
    by blast
  from y(1) have "fl y = Num y" by (rule fl_idem)
  then show ?thesis using y by blast
qed

lemma exp_minus_le: "0 \<le> t \<Longrightarrow> exp (- t) \<le> 1 / (1 + t)" for t :: real
proof -
  assume t: "0 \<le> t"
  have "1 + t \<le> exp t" using exp_ge_add_one_self[of t] by simp
  moreover have "0 < 1 + t" using t by simp
  ultimately have "1 / exp t \<le> 1 / (1 + t)" by (intro divide_left_mono) simp_all
  then show ?thesis by (simp add: exp_minus inverse_eq_divide)
qed

text \<open>
  The sigmoid stays above a bound \<open>q/16\<close> where the exponential is below \<open>e/8\<close>, whatever
  the roundings of the exponential, the sum and the quotient.
\<close>

lemma activation_lower:
  assumes e: "exp (- t) \<le> real_of_int e / 8" and e8: "0 \<le> e" "e \<le> 8"
    and q: "real_of_int q / 16 \<le> 8 / (8 + real_of_int e)" and q16: "0 \<le> q" "q \<le> 16"
  shows "\<exists>y. activation (Num t) = Num y \<and> real_of_int q / 16 \<le> y \<and> y \<le> 1 \<and> fl y = Num y"
proof -
  have "real_of_int 0 / 2 ^ 3 \<le> exp (- t)" by simp
  moreover have "exp (- t) \<le> real_of_int e / 2 ^ 3" using e by simp
  ultimately have "\<exists>y. fl (exp (- t)) = Num y \<and> real_of_int 0 / 2 ^ 3 \<le> y \<and>
      y \<le> real_of_int e / 2 ^ 3 \<and> fl y = Num y"
    using e8 by (intro fl_between) simp_all
  then obtain E where E: "fl (exp (- t)) = Num E" "0 \<le> E" "E \<le> real_of_int e / 8" by auto
  have "real_of_int 8 / 2 ^ 3 \<le> 1 + E" using E(2) by simp
  moreover have "1 + E \<le> real_of_int (8 + e) / 2 ^ 3" using E(3) by simp
  ultimately have "\<exists>y. fl (1 + E) = Num y \<and> real_of_int 8 / 2 ^ 3 \<le> y \<and>
      y \<le> real_of_int (8 + e) / 2 ^ 3 \<and> fl y = Num y"
    using e8 by (intro fl_between) simp_all
  then obtain S where S: "fl (1 + E) = Num S" "1 \<le> S" "S \<le> (8 + real_of_int e) / 8" by auto
  have S0: "0 < S" using S(2) by simp
  have "8 / (8 + real_of_int e) \<le> 1 / S"
  proof -
    have "S * 8 \<le> 8 + real_of_int e" using S(3) by simp
    moreover have "0 < 8 + real_of_int e" using e8 by simp
    ultimately show ?thesis using S0 by (simp add: field_simps)
  qed
  then have "real_of_int q / 2 ^ 4 \<le> 1 / S" using q by simp
  moreover have "1 / S \<le> real_of_int 16 / 2 ^ 4" using S(2) by simp
  ultimately have "\<exists>y. fl (1 / S) = Num y \<and> real_of_int q / 2 ^ 4 \<le> y \<and>
      y \<le> real_of_int 16 / 2 ^ 4 \<and> fl y = Num y"
    using q16 by (intro fl_between) simp_all
  then obtain Y where Y: "fl (1 / S) = Num Y" "real_of_int q / 16 \<le> Y" "Y \<le> 1" "fl Y = Num Y"
    by auto
  have "activation (Num t) = Num Y"
    using E(1) S(1) Y(1) S0 by (simp add: activation_def js_neg_def Math_exp_def)
  then show ?thesis using Y by blast
qed

lemma activation_zero: "activation (Num 0) = Num (1 / 2)"
  by (simp add: activation_def js_neg_def Math_exp_def fl_one fl_numeral fl_half)

lemma forward_lag1:
  "forward lag1_net [u, v] =
     Inr (activation (js_add (Num (- 3)) (js_mul (Num 6)
            (activation (js_add (js_add (Num 0) (js_mul (Num 0) u)) (js_mul (Num 2) v))))))"
  by (simp add: forward_def lag1_net_def inputSize_def)

lemma forward_lag1_first: "forward lag1_net [Num (1 / 2), Num 0] = Inr (Num (1 / 2))"
proof -
  have "js_add (js_add (Num 0) (js_mul (Num 0) (Num (1 / 2)))) (js_mul (Num 2) (Num 0)) = Num 0"
    by (simp add: fl_zero)
  moreover have "js_add (Num (- 3)) (js_mul (Num 6) (Num (1 / 2))) = Num 0"
    by (simp add: fl_numeral fl_zero)
  ultimately show ?thesis by (simp only: forward_lag1 activation_zero)
qed

lemma forward_lag1_second:
  "\<exists>y. forward lag1_net [Num (1 / 2), Num (1 / 2)] = Inr (Num y) \<and> 9 / 16 \<le> y \<and> y \<le> 1 \<and>
       fl y = Num y"
proof -
  have s: "js_add (js_add (Num 0) (js_mul (Num 0) (Num (1 / 2)))) (js_mul (Num 2) (Num (1 / 2))) = Num 1"
    by (simp add: fl_zero fl_one)
  have "exp (- 1 :: real) \<le> 1 / (1 + 1)" using exp_minus_le[of 1] by simp
  then have "exp (- 1 :: real) \<le> real_of_int 4 / 8" by simp
  moreover have "real_of_int 10 / 16 \<le> 8 / (8 + real_of_int 4)" by simp
  ultimately have "\<exists>y. activation (Num 1) = Num y \<and> real_of_int 10 / 16 \<le> y \<and> y \<le> 1 \<and> fl y = Num y"
    by (intro activation_lower[where e = 4 and q = 10]) simp_all
  then obtain H where H: "activation (Num 1) = Num H" "5 / 8 \<le> H" "H \<le> 1" by auto
  have "real_of_int 15 / 2 ^ 2 \<le> 6 * H" using H(2) by simp
  moreover have "6 * H \<le> real_of_int 24 / 2 ^ 2" using H(3) by simp
  ultimately have "\<exists>y. fl (6 * H) = Num y \<and> real_of_int 15 / 2 ^ 2 \<le> y \<and>
      y \<le> real_of_int 24 / 2 ^ 2 \<and> fl y = Num y"
    by (intro fl_between) simp_all
  then obtain P where P: "fl (6 * H) = Num P" "15 / 4 \<le> P" "P \<le> 6" by auto
  have "real_of_int 3 / 2 ^ 2 \<le> - 3 + P" using P(2) by simp
  moreover have "- 3 + P \<le> real_of_int 12 / 2 ^ 2" using P(3) by simp
  ultimately have "\<exists>y. fl (- 3 + P) = Num y \<and> real_of_int 3 / 2 ^ 2 \<le> y \<and>
      y \<le> real_of_int 12 / 2 ^ 2 \<and> fl y = Num y"
    by (intro fl_between) simp_all
  then obtain Z where Z: "fl (- 3 + P) = Num Z" "3 / 4 \<le> Z" "Z \<le> 3" by auto
  have n: "js_add (Num (- 3)) (js_mul (Num 6) (Num H)) = Num Z"
    using P(1) Z(1) by simp
  have "exp (- Z) \<le> 1 / (1 + Z)" using Z(2) by (intro exp_minus_le) simp
  also have "\<dots> \<le> 1 / (1 + 3 / 4)" using Z(2) by (intro divide_left_mono) simp_all
  also have "\<dots> \<le> 5 / 8" by simp
  finally have "exp (- Z) \<le> real_of_int 5 / 8" by simp
  moreover have "real_of_int 9 / 16 \<le> 8 / (8 + real_of_int 5)" by simp
  ultimately have "\<exists>y. activation (Num Z) = Num y \<and> real_of_int 9 / 16 \<le> y \<and> y \<le> 1 \<and> fl y = Num y"
    by (intro activation_lower[where e = 5 and q = 9]) simp_all
  then obtain Y where Y: "activation (Num Z) = Num Y" "9 / 16 \<le> Y" "Y \<le> 1" "fl Y = Num Y" by auto
  have "forward lag1_net [Num (1 / 2), Num (1 / 2)] = Inr (Num Y)"
    by (simp only: forward_lag1 s H(1) n Y(1))
  then show ?thesis using Y by blast
qed

lemma sin_ref_zero: "refMathFx_narx FSIN (Num 0) (Num 65536) = Num 0"
proof -
  have "fxToFloat (Num 0) (Num 65536) = Num 0" by (simp add: fxToFloat_def fl_zero)
  moreover have "clamp (Num 0) (js_neg Math_PI) Math_PI = Num 0"
    by (simp add: clamp_def Math_max_def Math_min_def Math_PI_def js_neg_def)
  moreover have "floatToFx (Math_sin (Num 0)) (Num 65536) = Num 0"
    by (simp add: Math_sin_def fl_zero floatToFx_def Math_round_def clamp_def Math_max_def
        Math_min_def MAX_FX_def js_neg_def)
  ultimately show ?thesis by (simp add: refMathFx_narx_def Let_def)
qed

lemma encode_midpoint:
  assumes "is_double p" and "is_double (2 * p)" and "0 < p"
  shows "encodeNormFromRange (Num 0) (js_neg (Num p)) (Num p) = Num (1 / 2)"
proof -
  have g: "js_gt (Num p) (js_neg (Num p))" using assms(3) by (simp add: js_gt_def js_neg_def)
  have a: "js_sub (Num 0) (js_neg (Num p)) = Num p"
    using is_double_fl[OF assms(1)] by (simp add: js_sub_def js_neg_def)
  have "p + p = 2 * p" by simp
  then have b: "js_sub (Num p) (js_neg (Num p)) = Num (2 * p)"
    using is_double_fl[OF assms(2)] by (simp add: js_sub_def js_neg_def)
  have "p / (2 * p) = 1 / 2" using assms(3) by simp
  then have c: "js_div (Num p) (Num (2 * p)) = Num (1 / 2)"
    using assms(3) fl_half by simp
  have d: "clamp (Num (1 / 2)) (Num 0) (Num 1) = Num (1 / 2)"
    by (simp add: clamp_def Math_max_def Math_min_def)
  show ?thesis unfolding encodeNormFromRange_def using g by (simp only: a b c d) simp
qed

lemma enc_in_zero:
  "encodeNormFromRange (fxToFloat (Num 0) (Num 65536)) (js_neg Math_PI) Math_PI = Num (1 / 2)"
proof -
  define p :: real where "p = real_of_int 884279719003555 / 2 ^ 48"
  have p1: "is_double p" unfolding p_def by (rule is_double_int_div_pow2) simp_all
  have eq: "2 * p = real_of_int 884279719003555 / 2 ^ 47" unfolding p_def by simp
  have p2: "is_double (2 * p)" unfolding eq by (rule is_double_int_div_pow2) simp_all
  have p3: "0 < p" by (simp add: p_def)
  have "Math_PI = Num p" by (simp add: Math_PI_def p_def)
  moreover have "fxToFloat (Num 0) (Num 65536) = Num 0" by (simp add: fxToFloat_def fl_zero)
  ultimately show ?thesis using encode_midpoint[OF p1 p2 p3] by simp
qed

lemma enc_out_zero:
  "encodeNormFromRange (fxToFloat (Num 0) (Num 65536)) (Num (- 1)) (Num 1) = Num (1 / 2)"
proof -
  have "is_double 1" using is_double_int[of 1] by simp
  moreover have "is_double (2 * 1)" using is_double_int[of 2] by simp
  ultimately have "encodeNormFromRange (Num 0) (js_neg (Num 1)) (Num 1) = Num (1 / 2)"
    by (intro encode_midpoint) simp_all
  moreover have "fxToFloat (Num 0) (Num 65536) = Num 0" by (simp add: fxToFloat_def fl_zero)
  ultimately show ?thesis by (simp add: js_neg_def)
qed

lemma clamp_unit: "0 \<le> y \<Longrightarrow> y \<le> 1 \<Longrightarrow> clamp (Num y) (Num 0) (Num 1) = Num y"
  by (auto simp: clamp_def Math_max_def Math_min_def)

lemma pure_network_blend:
  assumes "fl y = Num y"
  shows "js_add (js_mul (Num (1 / 2)) (js_sub (Num 1) (Num 1))) (js_mul (Num y) (Num 1)) = Num y"
    and "js_add (js_mul (Num (1 / 2)) (js_sub (Num 1) (Num 1))) (Num y) = Num y"
  using assms by (simp_all add: js_sub_def js_neg_def fl_zero)

lemma decode_unit:
  assumes "0 \<le> y" and "y \<le> 1"
  shows "decodeNormToRange (Num y) (Num (- 1)) (Num 1) = js_add (Num (- 1)) (js_mul (Num y) (Num 2))"
  using assms by (simp add: decodeNormToRange_def clamp_unit js_sub_def js_neg_def fl_numeral)

text \<open>
  One call of the provider \<open>lag1\<close> for \<open>FSIN\<close> at input 0, from any state whose input
  history has one entry and whose output history is \<open>[v]\<close>.
\<close>

lemma lag1_call:
  assumes "nets p FSIN = Some lag1_net"
    and "state p FSIN = Some \<lparr>inHist = [i], outHist = [v]\<rparr>"
    and "math_scale p = Num 65536" and "math_mix p = Num 1" and "\<not> math_safetyFallback p"
    and "opSpecs p = DEFAULT_OP_SPECS"
    and "forward lag1_net [Num (1 / 2), v] = Inr (Num y)" and "0 \<le> y" and "y \<le> 1"
    and "fl y = Num y"
  shows "\<exists>d p1. computeDetailed_narx p FSIN (Num 0) = Inr (d, p1) \<and>
           result d = floatToFx (js_add (Num (- 1)) (js_mul (Num y) (Num 2))) (Num 65536) \<and>
           nets p1 FSIN = Some lag1_net \<and>
           state p1 FSIN = Some \<lparr>inHist = [Num (1 / 2)], outHist = [Num y]\<rparr> \<and>
           math_scale p1 = Num 65536 \<and> math_mix p1 = Num 1 \<and> \<not> math_safetyFallback p1 \<and>
           opSpecs p1 = DEFAULT_OP_SPECS"
  using assms
  by (simp add: computeDetailed_narx_def sin_ref_zero enc_in_zero enc_out_zero
      pure_network_blend clamp_unit decode_unit Let_def)

lemma computeDetailed_narx_shifts:
  assumes "computeDetailed_narx p op xFx = Inr (d, p1)"
  shows "\<exists>h. state p op = Some h \<and>
           state p1 op =
             Some \<lparr>inHist = encodeNormFromRange (fxToFloat xFx (math_scale p))
                               (inLo (opSpecs p op)) (inHi (opSpecs p op)) # butlast (inHist h),
                   outHist = clamp (outNorm d) (Num 0) (Num 1) # butlast (outHist h)\<rparr> \<and>
           calls (stats p1) op = calls (stats p) op + 1"
  using assms
  by (auto simp: computeDetailed_narx_def Let_def split: option.splits sum.splits)

lemma lag1_provider_fields:
  "nets lag1_provider FSIN = Some lag1_net"
  "state lag1_provider FSIN = Some \<lparr>inHist = [Num 0], outHist = [Num 0]\<rparr>"
  "math_scale lag1_provider = Num 65536" "math_mix lag1_provider = Num 1"
  "\<not> math_safetyFallback lag1_provider" "opSpecs lag1_provider = DEFAULT_OP_SPECS"
  by (simp_all add: lag1_provider_def)

lemma floatToFx_zero_blend:
  "floatToFx (js_add (Num (- 1)) (js_mul (Num (1 / 2)) (Num 2))) (Num 65536) = Num 0"
  by (simp add: fl_one fl_zero floatToFx_def Math_round_def clamp_def Math_max_def Math_min_def
      MAX_FX_def js_neg_def)

lemma floatToFx_positive_blend:
  assumes "9 / 16 \<le> y" and "y \<le> 1"
  shows "floatToFx (js_add (Num (- 1)) (js_mul (Num y) (Num 2))) (Num 65536) \<noteq> Num 0"
proof -
  have "real_of_int 9 / 2 ^ 3 \<le> y * 2" using assms(1) by simp
  moreover have "y * 2 \<le> real_of_int 16 / 2 ^ 3" using assms(2) by simp
  ultimately have "\<exists>w. fl (y * 2) = Num w \<and> real_of_int 9 / 2 ^ 3 \<le> w \<and>
      w \<le> real_of_int 16 / 2 ^ 3 \<and> fl w = Num w"
    by (intro fl_between) simp_all
  then obtain W where W: "fl (y * 2) = Num W" "9 / 8 \<le> W" "W \<le> 2" by auto
  have "real_of_int 1 / 2 ^ 3 \<le> - 1 + W" using W(2) by simp
  moreover have "- 1 + W \<le> real_of_int 8 / 2 ^ 3" using W(3) by simp
  ultimately have "\<exists>r. fl (- 1 + W) = Num r \<and> real_of_int 1 / 2 ^ 3 \<le> r \<and>
      r \<le> real_of_int 8 / 2 ^ 3 \<and> fl r = Num r"
    by (intro fl_between) simp_all
  then obtain R where R: "fl (- 1 + W) = Num R" "1 / 8 \<le> R" "R \<le> 1" by auto
  have "real_of_int 8192 / 2 ^ 0 \<le> R * 65536" using R(2) by simp
  moreover have "R * 65536 \<le> real_of_int 65536 / 2 ^ 0" using R(3) by simp
  ultimately have "\<exists>v. fl (R * 65536) = Num v \<and> real_of_int 8192 / 2 ^ 0 \<le> v \<and>
      v \<le> real_of_int 65536 / 2 ^ 0 \<and> fl v = Num v"
    by (intro fl_between) simp_all
  then obtain V where V: "fl (R * 65536) = Num V" "8192 \<le> V" "V \<le> 65536" by auto
  define n where "n = \<lfloor>V + 1 / 2\<rfloor>"
  have f: "8192 \<le> n" "n \<le> 65536" unfolding n_def using V(2,3) by linarith+
  then have f': "(8192 :: real) \<le> real_of_int n" "real_of_int n \<le> (65536 :: real)"
    using of_int_le_iff[of 8192 n, where ?'a = real]
      of_int_le_iff[of n 65536, where ?'a = real] by simp_all
  have "js_mul (js_add (Num (- 1)) (js_mul (Num y) (Num 2))) (Num 65536) = Num V"
    using W(1) R(1) V(1) by simp
  then have "floatToFx (js_add (Num (- 1)) (js_mul (Num y) (Num 2))) (Num 65536) =
      clamp (Num (real_of_int n)) (Num (- 2147483647)) (Num 2147483647)"
    by (simp add: floatToFx_def Math_round_def MAX_FX_def js_neg_def n_def)
  also have "\<dots> = Num (real_of_int n)" using f' by (simp add: clamp_Num)
  finally show ?thesis using f' by simp
qed

lemma lag1_two_calls:
  "\<exists>d1 p1 d2 p2. computeDetailed_narx lag1_provider FSIN (Num 0) = Inr (d1, p1) \<and>
      computeDetailed_narx p1 FSIN (Num 0) = Inr (d2, p2) \<and> result d1 = Num 0 \<and>
      result d2 \<noteq> Num 0"
proof -
  have half: "(0::real) \<le> 1 / 2" "(1::real) / 2 \<le> 1" by simp_all
  from lag1_call[OF lag1_provider_fields forward_lag1_first half fl_half] obtain d1 p1 where
    c1: "computeDetailed_narx lag1_provider FSIN (Num 0) = Inr (d1, p1)" and
    r1: "result d1 = floatToFx (js_add (Num (- 1)) (js_mul (Num (1 / 2)) (Num 2))) (Num 65536)" and
    f1: "nets p1 FSIN = Some lag1_net"
      "state p1 FSIN = Some \<lparr>inHist = [Num (1 / 2)], outHist = [Num (1 / 2)]\<rparr>"
      "math_scale p1 = Num 65536" "math_mix p1 = Num 1" "\<not> math_safetyFallback p1"
      "opSpecs p1 = DEFAULT_OP_SPECS"
    by blast
  have z1: "result d1 = Num 0" unfolding r1 by (rule floatToFx_zero_blend)
  from forward_lag1_second obtain y where
    y: "forward lag1_net [Num (1 / 2), Num (1 / 2)] = Inr (Num y)" "9 / 16 \<le> y" "y \<le> 1"
      "fl y = Num y"
    by blast
  have y0: "0 \<le> y" using y(2) by simp
  from lag1_call[OF f1 y(1) y0 y(3) y(4)] obtain d2 p2 where
    c2: "computeDetailed_narx p1 FSIN (Num 0) = Inr (d2, p2)" and
    r2: "result d2 = floatToFx (js_add (Num (- 1)) (js_mul (Num y) (Num 2))) (Num 65536)"
    by blast
  have z2: "result d2 \<noteq> Num 0" unfolding r2 using y(2,3) by (rule floatToFx_positive_blend)
  show ?thesis using c1 c2 z1 z2 by blast
qed

text \<open>
  Claim C10: every successful \<open>computeDetailed\<close> call of the math provider replaces the
  op's lag histories by the shifted ones (the normalised input in front of the input
  history, the clamped normalised output in front of the output history, the oldest
  entries dropped) and counts the call; and \<open>compute\<close> is not a function of the op and the
  input alone: a provider of this class returns two different results for two
  consecutive calls with the same op and the same input.
\<close>

theorem narx_provider_is_stateful:
  "(\<forall>p op xFx d p1. computeDetailed_narx p op xFx = Inr (d, p1) \<longrightarrow>
      (\<exists>h. state p op = Some h \<and>
           state p1 op =
             Some \<lparr>inHist = encodeNormFromRange (fxToFloat xFx (math_scale p))
                               (inLo (opSpecs p op)) (inHi (opSpecs p op)) # butlast (inHist h),
                   outHist = clamp (outNorm d) (Num 0) (Num 1) # butlast (outHist h)\<rparr> \<and>
           calls (stats p1) op = calls (stats p) op + 1)) \<and>
   (\<exists>r1 p1 r2 p2. compute_narx lag1_provider FSIN (Num 0) = Inr (r1, p1) \<and>
      compute_narx p1 FSIN (Num 0) = Inr (r2, p2) \<and> r1 \<noteq> r2)"
proof (intro conjI allI impI)
  fix p op xFx d p1
  assume "computeDetailed_narx p op xFx = Inr (d, p1)"
  then show "\<exists>h. state p op = Some h \<and>
           state p1 op =
             Some \<lparr>inHist = encodeNormFromRange (fxToFloat xFx (math_scale p))
                               (inLo (opSpecs p op)) (inHi (opSpecs p op)) # butlast (inHist h),
                   outHist = clamp (outNorm d) (Num 0) (Num 1) # butlast (outHist h)\<rparr> \<and>
           calls (stats p1) op = calls (stats p) op + 1"
    by (rule computeDetailed_narx_shifts)
next
  from lag1_two_calls obtain d1 p1 d2 p2 where
    "computeDetailed_narx lag1_provider FSIN (Num 0) = Inr (d1, p1)"
    "computeDetailed_narx p1 FSIN (Num 0) = Inr (d2, p2)" "result d1 = Num 0" "result d2 \<noteq> Num 0"
    by blast
  then have "compute_narx lag1_provider FSIN (Num 0) = Inr (result d1, p1) \<and>
      compute_narx p1 FSIN (Num 0) = Inr (result d2, p2) \<and> result d1 \<noteq> result d2"
    by (simp add: compute_narx_def)
  then show "\<exists>r1 p1 r2 p2. compute_narx lag1_provider FSIN (Num 0) = Inr (r1, p1) \<and>
      compute_narx p1 FSIN (Num 0) = Inr (r2, p2) \<and> r1 \<noteq> r2"
    by blast
qed

theorem narx_provider_is_stateful_witness:
  "\<exists>d p1. computeDetailed_narx lag1_provider FSIN (Num 0) = Inr (d, p1) \<and>
     state lag1_provider FSIN = Some \<lparr>inHist = [Num 0], outHist = [Num 0]\<rparr> \<and>
     state p1 FSIN = Some \<lparr>inHist = [Num (1 / 2)], outHist = [Num (1 / 2)]\<rparr> \<and>
     calls (stats p1) FSIN = 1"
proof -
  have half: "(0::real) \<le> 1 / 2" "(1::real) / 2 \<le> 1" by simp_all
  from lag1_call[OF lag1_provider_fields forward_lag1_first half fl_half] obtain d p1 where
    c: "computeDetailed_narx lag1_provider FSIN (Num 0) = Inr (d, p1)" and
    s1: "state p1 FSIN = Some \<lparr>inHist = [Num (1 / 2)], outHist = [Num (1 / 2)]\<rparr>"
    by blast
  from narx_provider_is_stateful c obtain h where
    hs: "state lag1_provider FSIN = Some h" and
    "calls (stats p1) FSIN = calls (stats lag1_provider) FSIN + 1"
    by blast
  then have "calls (stats p1) FSIN = 1" by (simp add: lag1_provider_def)
  then show ?thesis using c s1 lag1_provider_fields(2) by blast
qed

end
